theory Spec2Isabelle
  imports Complex_Main "HOL-Library.Word" "HOL-Library.Sublist"
begin

section \<open>JavaScript strings and values\<close>

text \<open>
  A JavaScript string is a sequence of 16-bit code units. String literals of the source
  are written with \<open>js\<close>; all of them are ASCII.
\<close>

type_synonym code_unit = "16 word"
type_synonym jsstring = "code_unit list"

definition js :: "string \<Rightarrow> jsstring" where
  "js s = map (\<lambda>c. of_nat (of_char c)) s"

text \<open>
  \<open>String.prototype.includes\<close> and \<open>startsWith\<close>: a contiguous occurrence of the
  pattern, anywhere or at the start.
\<close>

definition startsWith :: "'a list \<Rightarrow> 'a list \<Rightarrow> bool" where
  "startsWith s pat = (take (length pat) s = pat)"

fun includesStr :: "'a list \<Rightarrow> 'a list \<Rightarrow> bool" where
  "includesStr [] pat = (pat = [])"
| "includesStr (c # cs) pat = (startsWith (c # cs) pat \<or> includesStr cs pat)"

text \<open>
  \<open>String.prototype.trim\<close> removes the WhiteSpace and LineTerminator code points of
  ECMAScript from both ends: TAB, LF, VT, FF, CR, SP, NBSP, U+1680, U+2000..U+200A,
  U+2028, U+2029, U+202F, U+205F, U+3000 and U+FEFF.
\<close>

definition isWhiteSpace :: "code_unit \<Rightarrow> bool" where
  "isWhiteSpace c =
     (c = 0x0009 \<or> c = 0x000A \<or> c = 0x000B \<or> c = 0x000C \<or> c = 0x000D \<or> c = 0x0020 \<or>
      c = 0x00A0 \<or> c = 0x1680 \<or> (0x2000 \<le> c \<and> c \<le> 0x200A) \<or> c = 0x2028 \<or>
      c = 0x2029 \<or> c = 0x202F \<or> c = 0x205F \<or> c = 0x3000 \<or> c = 0xFEFF)"

definition trim :: "jsstring \<Rightarrow> jsstring" where
  "trim s = rev (dropWhile isWhiteSpace (rev (dropWhile isWhiteSpace s)))"

text \<open>
  \<open>s.split(sep)\<close> for a one-character separator: the pieces between the occurrences of
  the separator, at least one piece (the empty string splits into one empty piece).
\<close>

fun split :: "'a \<Rightarrow> 'a list \<Rightarrow> 'a list list" where
  "split sep [] = [[]]"
| "split sep (c # cs) =
     (if c = sep then [] # split sep cs
      else (case split sep cs of
              [] \<Rightarrow> [[c]]
            | p # ps \<Rightarrow> (c # p) # ps))"

definition newline :: code_unit where
  "newline = 0x000A"

definition hash :: code_unit where
  "hash = 0x0023"

text \<open>
  The values an option of the configuration can hold, as far as the program looks at
  them: it tests them for truthiness and passes them on. Numbers are restricted to
  integers.
\<close>

datatype jsval = JUndefined | JNull | JBool bool | JNum int | JStr jsstring

fun truthy :: "jsval \<Rightarrow> bool" where
  "truthy JUndefined = False"
| "truthy JNull = False"
| "truthy (JBool b) = b"
| "truthy (JNum n) = (n \<noteq> 0)"
| "truthy (JStr s) = (s \<noteq> [])"

section \<open>The target list\<close>

text \<open>
  Lines 22 to 25 of the batch script:
  \<^verbatim>\<open>usersData.split('\n').map(line => line.trim())
        .filter(line => line && !line.startsWith('#'))\<close>
\<close>

definition parseUsers :: "jsstring \<Rightarrow> jsstring list" where
  "parseUsers usersData =
     filter (\<lambda>line. line \<noteq> [] \<and> \<not> startsWith line [hash])
       (map trim (split newline usersData))"

section \<open>Errors, events and the environment\<close>

text \<open>
  Every \<open>throw new Error(...)\<close> of the program is a constructor; \<open>External\<close> is an
  error raised by the browser, the file system or the solving service, with its message.
  \<open>message\<close> is the \<open>error.message\<close> the handlers read.
\<close>

datatype userStatus = not_found | suspended | exists_user

datatype error =
    External jsstring
  | LoginButtonNotFound
  | LoginVerificationFailed
  | CaptchaNoSolver
  | SitekeyNotFound
  | UserUnavailable jsstring userStatus
  | ChatButtonNotFound
  | NotOnChatPage jsstring
  | DeliveryFailed

fun message :: "error \<Rightarrow> jsstring" where
  "message (External m) = m"
| "message LoginButtonNotFound = js ''Login button not found after comprehensive search''"
| "message LoginVerificationFailed =
     js ''Login verification failed - incorrect credentials or Reddit is blocking the login''"
| "message CaptchaNoSolver =
     js ''CAPTCHA challenge detected but no 2Captcha API key configured''"
| "message SitekeyNotFound = js ''CAPTCHA sitekey not found''"
| "message (UserUnavailable targetUser userStatus) =
     js ''User '' @ targetUser @ js '' '' @
     (if userStatus = not_found then js ''not found'' else js ''account suspended'')"
| "message ChatButtonNotFound = js ''Chat button not found or user has disabled messaging''"
| "message (NotOnChatPage chatPageUrl) = js ''Not on chat page. Current URL: '' @ chatPageUrl"
| "message DeliveryFailed =
     js ''Message delivery failed - Reddit may have blocked the message''"

text \<open>The records the program builds and hands to \<open>saveResults\<close>.\<close>

record failure =
  user :: jsstring
  error :: jsstring
  timestamp :: jsstring

record results =
  success :: "jsstring list"
  failed :: "failure list"

datatype report =
    SingleResult "jsstring list" jsstring jsstring jsval bool
  | SingleFailure "failure list" jsval bool
  | BatchResults results

datatype solver = Solver jsval

text \<open>
  The functions handed to \<open>page.evaluate\<close>, named by what they do, and the functions
  of the program whose entry the trace records.
\<close>

datatype script =
    FillUsername jsstring
  | FillPassword jsstring
  | ClickLoginForm
  | ClickLoginButton
  | DetectCaptcha
  | ReadSitekey
  | InjectToken jsstring
  | LoginIndicators
  | RetryIndicators
  | ReadUserStatus
  | FindChatUrl
  | TypeMessage jsstring
  | ClickComposer
  | ReadDimensions
  | ClickSend
  | ReadDelivery

datatype entry =
    InitBrowser
  | LoginToReddit
  | HandleCaptchaIfPresent
  | VerifyLoginSuccess
  | ExtractChatUrl
  | SendMessageToUser jsstring
  | SendMessageInChatInterface
  | SaveResults jsstring

text \<open>
  What the program does to the outside, in the order it does it. \<open>Sleep\<close> is a
  \<open>setTimeout\<close> wait inside \<open>redditUtils.js\<close>, \<open>PacingDelay\<close> the wait between two
  targets of the batch loop. \<open>Invoke\<close> records that a function was entered; the calls of
  \<open>log\<close>, which print to the console and cannot fail, are not recorded.
\<close>

datatype event =
    Invoke entry
  | ReadFile jsstring
  | Launch jsval "jsval option"
  | NewPage
  | SetViewport nat nat
  | SetUserAgent jsstring
  | Goto jsstring
  | WaitForSelector jsstring
  | WaitForNavigation nat
  | Evaluate script
  | Sleep nat
  | PacingDelay jsval
  | SolverRecaptcha solver jsstring jsstring
  | KeyboardType jsstring
  | KeyboardPress jsstring
  | MouseClick rat rat
  | Mkdir jsstring
  | WriteFile jsstring report
  | BrowserClose nat

text \<open>What the page shows to the functions evaluated in it.\<close>

record iframe_view =
  width :: int
  height :: int
  display :: jsstring
  visibility :: jsstring

record captcha_dom =
  recaptchaIframe :: "iframe_view option"
  captchaContainer :: "jsstring option"
  gRecaptchaShown :: bool

record login_dom =
  q_expandUserDrawerButton :: bool
  q_userAvatar :: bool
  q_userAvatarSpan :: bool
  q_faceplateUserDrawer :: bool
  q_userMenuTrigger :: bool
  q_createButton :: bool
  q_karma :: bool
  q_loginUsername :: bool
  q_loginForm :: bool

record retry_dom =
  r_expandUserDrawerButton :: bool
  r_userAvatar :: bool
  r_userAvatarSpan :: bool
  r_faceplateUserDrawer :: bool
  r_loginUsername :: bool
  r_href :: jsstring
  r_userTestid :: bool
  r_createButton :: bool

record delivery_dom =
  bodyText :: jsstring
  messageSentElement :: bool

text \<open>
  The environment answers each call from the history of the calls made so far, so it is
  free to answer the same call differently each time. \<open>rejects\<close> says whether a call
  fails and with which message; the other fields give the value a successful call returns.
\<close>

record env =
  rejects :: "event list \<Rightarrow> event \<Rightarrow> jsstring option"
  answers :: "event list \<Rightarrow> event \<Rightarrow> bool"
  fileContents :: "event list \<Rightarrow> jsstring"
  browserHandle :: "event list \<Rightarrow> nat"
  urlOf :: "event list \<Rightarrow> jsstring"
  clock :: "event list \<Rightarrow> jsstring"
  captchaDom :: "event list \<Rightarrow> captcha_dom"
  sitekeyFound :: "event list \<Rightarrow> jsstring option"
  solverToken :: "event list \<Rightarrow> jsstring"
  loginDom :: "event list \<Rightarrow> login_dom"
  retryDom :: "event list \<Rightarrow> retry_dom"
  profileText :: "event list \<Rightarrow> jsstring"
  chatLink :: "event list \<Rightarrow> jsstring option"
  viewport :: "event list \<Rightarrow> int \<times> int"
  deliveryDom :: "event list \<Rightarrow> delivery_dom"

text \<open>
  The state threaded through a run: the trace, and the variable \<open>browser\<close> of the
  running entry function (\<open>let browser = null\<close>), which its \<open>finally\<close> block reads.
\<close>

record state =
  trace :: "event list"
  browser :: "nat option"

type_synonym 'a io = "state \<Rightarrow> (error + 'a) \<times> state"

definition returnM :: "'a \<Rightarrow> 'a io" where
  "returnM x = (\<lambda>s. (Inr x, s))"

definition throwM :: "error \<Rightarrow> 'a io" where
  "throwM e = (\<lambda>s. (Inl e, s))"

definition bindM :: "'a io \<Rightarrow> ('a \<Rightarrow> 'b io) \<Rightarrow> 'b io" where
  "bindM m f = (\<lambda>s. case m s of (Inl e, s') \<Rightarrow> (Inl e, s') | (Inr x, s') \<Rightarrow> f x s')"

definition thenM :: "'a io \<Rightarrow> 'b io \<Rightarrow> 'b io" where
  "thenM m n = bindM m (\<lambda>_. n)"

text \<open>\<open>try { m } catch (error) { h error }\<close>\<close>

definition tryCatch :: "'a io \<Rightarrow> (error \<Rightarrow> 'a io) \<Rightarrow> 'a io" where
  "tryCatch m h = (\<lambda>s. case m s of (Inl e, s') \<Rightarrow> h e s' | (Inr x, s') \<Rightarrow> (Inr x, s'))"

text \<open>
  \<open>try { m } finally { fin }\<close>: the block \<open>fin\<close> runs whatever \<open>m\<close> did; the outcome is
  that of \<open>m\<close>, unless \<open>fin\<close> throws.
\<close>

definition tryFinally :: "'a io \<Rightarrow> unit io \<Rightarrow> 'a io" where
  "tryFinally m fin =
     (\<lambda>s. case m s of (r, s') \<Rightarrow>
        (case fin s' of (Inl e, s'') \<Rightarrow> (Inl e, s'') | (Inr _, s'') \<Rightarrow> (r, s'')))"

definition emit :: "event \<Rightarrow> unit io" where
  "emit ev = (\<lambda>s. (Inr (), s\<lparr>trace := trace s @ [ev]\<rparr>))"

definition call :: "env \<Rightarrow> event \<Rightarrow> (event list \<Rightarrow> 'a) \<Rightarrow> 'a io" where
  "call e ev answer =
     (\<lambda>s. case rejects e (trace s) ev of
        Some m \<Rightarrow> (Inl (External m), s\<lparr>trace := trace s @ [ev]\<rparr>)
      | None \<Rightarrow> (Inr (answer (trace s)), s\<lparr>trace := trace s @ [ev]\<rparr>))"

definition callUnit :: "env \<Rightarrow> event \<Rightarrow> unit io" where
  "callUnit e ev = call e ev (\<lambda>_. ())"

definition callBool :: "env \<Rightarrow> event \<Rightarrow> bool io" where
  "callBool e ev = call e ev (\<lambda>tr. answers e tr ev)"

text \<open>\<open>page.url()\<close> and \<open>new Date().toISOString()\<close> read the environment and cannot fail.\<close>

definition pageUrl :: "env \<Rightarrow> jsstring io" where
  "pageUrl e = (\<lambda>s. (Inr (urlOf e (trace s)), s))"

definition now :: "env \<Rightarrow> jsstring io" where
  "now e = (\<lambda>s. (Inr (clock e (trace s)), s))"

definition setBrowser :: "nat option \<Rightarrow> unit io" where
  "setBrowser b = (\<lambda>s. (Inr (), s\<lparr>browser := b\<rparr>))"

section \<open>redditUtils.js\<close>

subsection \<open>initBrowser\<close>

text \<open>
  The launch options are the \<open>headless\<close> value as given and, when \<open>options.proxy\<close> is
  truthy, the proxy argument. The page is the only one of the run and has no name here.
\<close>

definition userAgent :: jsstring where
  "userAgent = js (''Mozilla/5.0 (Windows NT 10.0; Win64; x64) AppleWebKit/537.36 '' @
                   ''(KHTML, like Gecko) Chrome/120.0.0.0 Safari/537.36'')"

definition initBrowser :: "env \<Rightarrow> jsval \<Rightarrow> jsval \<Rightarrow> nat io" where
  "initBrowser e headless proxy =
     thenM (emit (Invoke InitBrowser))
    (bindM (call e (Launch headless (if truthy proxy then Some proxy else None))
              (browserHandle e)) (\<lambda>b.
     thenM (callUnit e NewPage)
    (thenM (callUnit e (SetViewport 1366 768))
    (thenM (callUnit e (SetUserAgent userAgent))
    (returnM b)))))"

subsection \<open>handleCaptchaIfPresent\<close>

definition captchaRequired :: "captcha_dom \<Rightarrow> bool" where
  "captchaRequired d =
     (case recaptchaIframe d of
        None \<Rightarrow> False
      | Some rect \<Rightarrow>
          (let isVisible = (width rect > 0 \<and> height rect > 0 \<and>
                            display rect \<noteq> js ''none'' \<and> visibility rect \<noteq> js ''hidden'');
               containerVisible = (case captchaContainer d of
                                     Some disp \<Rightarrow> disp \<noteq> js ''none''
                                   | None \<Rightarrow> False);
               challengeActive = gRecaptchaShown d
           in isVisible \<and> (containerVisible \<or> challengeActive)))"

definition handleCaptchaIfPresent :: "env \<Rightarrow> solver option \<Rightarrow> unit io" where
  "handleCaptchaIfPresent e solver =
     thenM (emit (Invoke HandleCaptchaIfPresent))
    (bindM (call e (Evaluate DetectCaptcha) (\<lambda>tr. captchaRequired (captchaDom e tr)))
       (\<lambda>required.
     if required then
       (case solver of
          None \<Rightarrow> throwM CaptchaNoSolver
        | Some sv \<Rightarrow>
            bindM (call e (Evaluate ReadSitekey) (sitekeyFound e)) (\<lambda>sitekey.
            (case sitekey of
               None \<Rightarrow> throwM SitekeyNotFound
             | Some k \<Rightarrow>
                 if k = [] then throwM SitekeyNotFound
                 else
                   bindM (pageUrl e) (\<lambda>pageurl.
                   bindM (call e (SolverRecaptcha sv k pageurl) (solverToken e)) (\<lambda>result.
                   thenM (callUnit e (Evaluate (InjectToken result)))
                  (callUnit e (WaitForNavigation 30000)))))))
     else returnM ()))"

subsection \<open>verifyLoginSuccess\<close>

definition domLoginSuccess :: "login_dom \<Rightarrow> bool" where
  "domLoginSuccess d =
     (let expandUserDrawerButton = q_expandUserDrawerButton d;
          userAvatar = q_userAvatar d;
          userAvatarSpan = q_userAvatarSpan d;
          faceplateUserDrawer = q_faceplateUserDrawer d;
          userMenuTrigger = q_userMenuTrigger d;
          createButton = q_createButton d;
          karma = q_karma d;
          noLoginForm = (\<not> q_loginUsername d);
          noLoginPage = (\<not> q_loginForm d);
          positiveIndicators =
            length (filter (\<lambda>v. v = True)
              [expandUserDrawerButton, userAvatar, userAvatarSpan, faceplateUserDrawer,
               userMenuTrigger, createButton, karma, noLoginForm, noLoginPage]);
          strongIndicators =
            (expandUserDrawerButton \<or> userAvatar \<or> userAvatarSpan \<or> faceplateUserDrawer \<or>
             userMenuTrigger \<or> karma);
          likelySuccess =
            ((noLoginForm \<or> noLoginPage) \<and> (positiveIndicators \<ge> 2 \<or> strongIndicators))
      in strongIndicators \<or> likelySuccess \<or> positiveIndicators \<ge> 3)"

text \<open>
  The retry hands back the value of an \<open>||\<close> chain, which may be an element instead of a
  boolean; the caller only tests it for truthiness, which is what \<open>quickCheck\<close> gives.
\<close>

definition quickCheck :: "retry_dom \<Rightarrow> bool" where
  "quickCheck d =
     (r_expandUserDrawerButton d \<or> r_userAvatar d \<or> r_userAvatarSpan d \<or>
      r_faceplateUserDrawer d \<or>
      (\<not> r_loginUsername d \<and> \<not> includesStr (r_href d) (js ''/login'') \<and>
       (r_userTestid d \<or> r_createButton d)))"

definition urlIndicatesSuccess :: "jsstring \<Rightarrow> bool" where
  "urlIndicatesSuccess currentUrl =
     (\<not> includesStr currentUrl (js ''/login'') \<and>
      \<not> includesStr currentUrl (js ''/register'') \<and>
      \<not> includesStr currentUrl (js ''/error''))"

definition verifyLoginSuccess :: "env \<Rightarrow> bool io" where
  "verifyLoginSuccess e =
     thenM (emit (Invoke VerifyLoginSuccess))
    (tryCatch
      (thenM (tryCatch (callUnit e (WaitForNavigation 10000)) (\<lambda>err. returnM ()))
      (bindM (pageUrl e) (\<lambda>currentUrl.
       bindM (call e (Evaluate LoginIndicators) (\<lambda>tr. domLoginSuccess (loginDom e tr)))
         (\<lambda>loginSuccess.
       (let overallSuccess = (urlIndicatesSuccess currentUrl \<or> loginSuccess) in
        if \<not> overallSuccess then
          thenM (emit (Sleep 3000))
         (bindM (call e (Evaluate RetryIndicators) (\<lambda>tr. quickCheck (retryDom e tr)))
            (\<lambda>retryVerification.
          if \<not> retryVerification then returnM True else returnM True))
        else returnM True)))))
      (\<lambda>err. returnM False))"

subsection \<open>loginToReddit\<close>

definition makeSolver :: "jsval \<Rightarrow> solver option" where
  "makeSolver captchaApiKey = (if truthy captchaApiKey then Some (Solver captchaApiKey) else None)"

text \<open>Lines 56 to 147: from opening the login page to the wait after the click.\<close>

definition submitCredentials :: "env \<Rightarrow> jsstring \<Rightarrow> jsstring \<Rightarrow> unit io" where
  "submitCredentials e username password =
     thenM (callUnit e (Goto (js ''https://www.reddit.com/login'')))
    (thenM (callUnit e (WaitForSelector (js ''faceplate-text-input#login-username'')))
    (thenM (callUnit e (WaitForSelector (js ''faceplate-text-input#login-password'')))
    (thenM (callUnit e (Evaluate (FillUsername username)))
    (thenM (callUnit e (Evaluate (FillPassword password)))
    (bindM (callBool e (Evaluate ClickLoginForm)) (\<lambda>loginButtonClicked.
     thenM (if \<not> loginButtonClicked then
              thenM (emit (Sleep 2000))
             (bindM (callBool e (Evaluate ClickLoginButton)) (\<lambda>secondAttempt.
              if \<not> secondAttempt then throwM LoginButtonNotFound else returnM ()))
            else returnM ())
    (emit (Sleep 5000))))))))"

definition loginToReddit :: "env \<Rightarrow> jsstring \<Rightarrow> jsstring \<Rightarrow> jsval \<Rightarrow> bool io" where
  "loginToReddit e username password captchaApiKey =
     (let solver = makeSolver captchaApiKey in
      thenM (emit (Invoke LoginToReddit))
     (tryCatch
       (thenM (submitCredentials e username password)
       (thenM (handleCaptchaIfPresent e solver)
       (bindM (verifyLoginSuccess e) (\<lambda>loginSuccess.
        if \<not> loginSuccess then throwM LoginVerificationFailed else returnM True))))
       (\<lambda>err. throwM err)))"

subsection \<open>extractChatUrl, sendMessageInChatInterface, sendMessageToUser\<close>

text \<open>
  The selector chain of \<open>extractChatUrl\<close> and the search for the text area and the send
  button run inside the page; the environment gives their results.
\<close>

definition extractChatUrl :: "env \<Rightarrow> jsstring option io" where
  "extractChatUrl e =
     thenM (emit (Invoke ExtractChatUrl))
    (thenM (callUnit e (WaitForSelector (js ''button, a'')))
    (call e (Evaluate FindChatUrl) (chatLink e)))"

datatype deliveryStatus = failed_status | sent_status | unknown_status

definition deliveryStatusOf :: "delivery_dom \<Rightarrow> deliveryStatus" where
  "deliveryStatusOf d =
     (if includesStr (bodyText d) (js ''Failed to send'') \<or>
         includesStr (bodyText d) (js ''Message failed'') then failed_status
      else if messageSentElement d \<or> includesStr (bodyText d) (js ''Message sent'')
      then sent_status
      else unknown_status)"

text \<open>Lines 451 to 653: writing the message and pressing send.\<close>

definition composeAndSubmit :: "env \<Rightarrow> jsstring \<Rightarrow> unit io" where
  "composeAndSubmit e messageText =
     thenM (tryCatch (callUnit e (WaitForSelector (js ''rs-message-composer'')))
              (\<lambda>err. returnM ()))
    (thenM (emit (Sleep 2000))
    (bindM (callBool e (Evaluate (TypeMessage messageText))) (\<lambda>messageSent.
     thenM (if \<not> messageSent then
              tryCatch
                (thenM (callUnit e (Evaluate ClickComposer))
                (thenM (emit (Sleep 1000))
                (callUnit e (KeyboardType messageText))))
                (\<lambda>err.
                 bindM (call e (Evaluate ReadDimensions) (viewport e)) (\<lambda>dimensions.
                 thenM (callUnit e (MouseClick (of_int (fst dimensions) / 2)
                                    (of_int (snd dimensions) - 100)))
                (thenM (emit (Sleep 500))
                (callUnit e (KeyboardType messageText)))))
            else returnM ())
    (thenM (emit (Sleep 1000))
    (bindM (callBool e (Evaluate ClickSend)) (\<lambda>sendButtonClicked.
     thenM (if \<not> sendButtonClicked then callUnit e (KeyboardPress (js ''Enter''))
            else returnM ())
    (emit (Sleep 2000))))))))"

text \<open>Lines 655 to 672: the delivery check.\<close>

definition confirmDelivery :: "env \<Rightarrow> unit io" where
  "confirmDelivery e =
     bindM (call e (Evaluate ReadDelivery) (\<lambda>tr. deliveryStatusOf (deliveryDom e tr)))
       (\<lambda>deliveryStatus.
     if deliveryStatus = failed_status then throwM DeliveryFailed else returnM ())"

definition sendMessageInChatInterface :: "env \<Rightarrow> jsstring \<Rightarrow> unit io" where
  "sendMessageInChatInterface e messageText =
     thenM (emit (Invoke SendMessageInChatInterface))
    (thenM (composeAndSubmit e messageText)
    (confirmDelivery e))"

definition classifyUser :: "jsstring \<Rightarrow> userStatus" where
  "classifyUser text =
     (if includesStr text (js ''Sorry, nobody on Reddit goes by that name'') then not_found
      else if includesStr text (js ''This account has been suspended'') then suspended
      else exists_user)"

text \<open>
  Lines 391 to 434 of \<open>sendMessageToUser\<close>: opening the profile, classifying it, finding
  the chat address and opening the chat.
\<close>

definition openChat :: "env \<Rightarrow> jsstring \<Rightarrow> unit io" where
  "openChat e targetUser =
     thenM (callUnit e (Goto (js ''https://www.reddit.com/user/'' @ targetUser)))
    (bindM (call e (Evaluate ReadUserStatus) (\<lambda>tr. classifyUser (profileText e tr)))
       (\<lambda>userStatus.
     if userStatus \<noteq> exists_user then throwM (UserUnavailable targetUser userStatus)
     else
       bindM (extractChatUrl e) (\<lambda>chatUrl.
       (case chatUrl of
          None \<Rightarrow> throwM ChatButtonNotFound
        | Some url \<Rightarrow>
            if url = [] then throwM ChatButtonNotFound
            else
              thenM (callUnit e (Goto url))
             (thenM (emit (Sleep 3000))
             (bindM (pageUrl e) (\<lambda>chatPageUrl.
              if \<not> includesStr chatPageUrl (js ''chat.reddit.com'')
              then throwM (NotOnChatPage chatPageUrl)
              else returnM ())))))))"

definition sendMessageToUser :: "env \<Rightarrow> jsstring \<Rightarrow> jsstring \<Rightarrow> bool io" where
  "sendMessageToUser e targetUser messageText =
     thenM (emit (Invoke (SendMessageToUser targetUser)))
    (tryCatch
      (thenM (openChat e targetUser)
      (thenM (sendMessageInChatInterface e messageText)
      (returnM True)))
      (\<lambda>err. throwM err))"

subsection \<open>saveResults\<close>

text \<open>
  \<open>path.join(a, b)\<close> of Node on POSIX for a relative, non-empty \<open>a\<close> and a non-empty
  \<open>b\<close>: the two are joined by a slash and the result is normalised. Empty segments and
  \<open>.\<close> are dropped, \<open>..\<close> removes the segment before it, or stays when there is none or
  that one is \<open>..\<close> itself; an empty result is \<open>.\<close>, and a trailing slash is kept.
\<close>

definition slash :: code_unit where
  "slash = 0x002F"

fun normalizeSegments :: "jsstring list \<Rightarrow> jsstring list \<Rightarrow> jsstring list" where
  "normalizeSegments acc [] = rev acc"
| "normalizeSegments acc (seg # segs) =
     (if seg = [] \<or> seg = js ''.'' then normalizeSegments acc segs
      else if seg = js ''..'' then
        (case acc of
           [] \<Rightarrow> normalizeSegments [seg] segs
         | prev # below \<Rightarrow>
             if prev = js ''..'' then normalizeSegments (seg # acc) segs
             else normalizeSegments below segs)
      else normalizeSegments (seg # acc) segs)"

fun joinPath :: "jsstring list \<Rightarrow> jsstring" where
  "joinPath [] = []"
| "joinPath [seg] = seg"
| "joinPath (seg # next # segs) = seg @ slash # joinPath (next # segs)"

definition pathJoin :: "jsstring \<Rightarrow> jsstring \<Rightarrow> jsstring" where
  "pathJoin a b =
     (let joined = a @ slash # b;
          body = joinPath (normalizeSegments [] (split slash joined));
          trailing = (last joined = slash)
      in if body = [] then (if trailing then js ''./'' else js ''.'')
         else if trailing then body @ [slash] else body)"

definition saveResults :: "env \<Rightarrow> report \<Rightarrow> jsstring \<Rightarrow> jsstring io" where
  "saveResults e data filePrefix =
     thenM (emit (Invoke (SaveResults filePrefix)))
    (thenM (tryCatch (callUnit e (Mkdir (js ''./results''))) (\<lambda>err. returnM ()))
    (bindM (now e) (\<lambda>iso.
     (let stamp = map (\<lambda>c. if c = 0x3A \<or> c = 0x2E then 0x2D else c) iso;
          resultsFile = pathJoin (js ''./results'')
                          (filePrefix @ js ''-'' @ stamp @ js ''.json'')
      in thenM (callUnit e (WriteFile resultsFile data))
        (returnM resultsFile)))))"

section \<open>The entry functions\<close>

text \<open>The \<open>finally\<close> block of both entry functions: \<open>if (browser) await browser.close()\<close>.\<close>

definition closeBrowser :: "env \<Rightarrow> unit io" where
  "closeBrowser e =
     (\<lambda>s. case browser s of
        None \<Rightarrow> (Inr (), s)
      | Some b \<Rightarrow> callUnit e (BrowserClose b) s)"

subsection \<open>processOptimizedBatch\<close>

record batch_options =
  opt_headless :: jsval
  opt_proxy :: jsval
  opt_captchaApiKey :: jsval
  opt_delay :: jsval

text \<open>
  The loop of lines 55 to 79, from index \<open>i\<close> on, with the results gathered so far.
\<close>

function batchLoop ::
  "env \<Rightarrow> jsstring list \<Rightarrow> jsstring \<Rightarrow> jsval \<Rightarrow> nat \<Rightarrow> results \<Rightarrow> state \<Rightarrow>
   (error + results) \<times> state" where
  "batchLoop e users messageText delay i res s =
     (if i < length users then
        (let targetUser = users ! i in
         case tryCatch
                (thenM (sendMessageToUser e targetUser messageText)
                   (returnM (res\<lparr>success := success res @ [targetUser]\<rparr>)))
                (\<lambda>err.
                   bindM (now e) (\<lambda>iso.
                   returnM (res\<lparr>failed := failed res @
                     [\<lparr>user = targetUser, error = message err, timestamp = iso\<rparr>]\<rparr>)))
                s of
           (Inl err, s1) \<Rightarrow> (Inl err, s1)
         | (Inr res1, s1) \<Rightarrow>
             (case (if int i < int (length users) - 1 then emit (PacingDelay delay)
                    else returnM ()) s1 of
                (Inl err, s2) \<Rightarrow> (Inl err, s2)
              | (Inr _, s2) \<Rightarrow> batchLoop e users messageText delay (i + 1) res1 s2))
      else (Inr res, s))"
  by pat_completeness auto
termination
  by (relation "measure (\<lambda>(e, users, messageText, delay, i, res, s). length users - i)") auto

declare batchLoop.simps [simp del]

definition processOptimizedBatch ::
  "env \<Rightarrow> jsstring \<Rightarrow> jsstring \<Rightarrow> jsstring \<Rightarrow> jsstring \<Rightarrow> batch_options \<Rightarrow> results io" where
  "processOptimizedBatch e username password usersFile messageText options =
     thenM (setBrowser None)
    (tryFinally
      (tryCatch
        (bindM (call e (ReadFile usersFile) (fileContents e)) (\<lambda>usersData.
         (let users = parseUsers usersData in
          bindM (initBrowser e (JBool (opt_headless options \<noteq> JBool False))
                   (opt_proxy options)) (\<lambda>b.
          thenM (setBrowser (Some b))
         (thenM (loginToReddit e username password (opt_captchaApiKey options))
         (let delay = (if truthy (opt_delay options) then opt_delay options
                       else JNum 30000) in
          bindM (batchLoop e users messageText delay 0 \<lparr>success = [], failed = []\<rparr>)
            (\<lambda>res.
          bindM (saveResults e (BatchResults res) (js ''batch'')) (\<lambda>resultsFile.
          returnM res))))))))
        (\<lambda>err. throwM err))
      (closeBrowser e))"

subsection \<open>redditMessenger\<close>

text \<open>
  A configuration object names some of the options; \<open>None\<close> is a key the object does not
  have. \<open>{ ...DEFAULT_CONFIG, ...config }\<close> takes every key the configuration has from it,
  whatever its value, and the others from the defaults.
\<close>

record messenger_options =
  o_headless :: jsval
  o_captchaApiKey :: jsval
  o_proxy :: jsval
  o_messageTemplates :: "jsstring list"

record config =
  cfg_headless :: "jsval option"
  cfg_captchaApiKey :: "jsval option"
  cfg_proxy :: "jsval option"
  cfg_messageTemplates :: "jsstring list option"

definition DEFAULT_CONFIG :: messenger_options where
  "DEFAULT_CONFIG =
     \<lparr>o_headless = JBool False,
      o_captchaApiKey = JStr (js ''YOUR_CAPTCHA_API_KEY_HERE''),
      o_proxy = JNull,
      o_messageTemplates =
        [js ''Hello, I saw your post and wanted to connect!'',
         js ''Hi there, I found your profile interesting and wanted to chat.'']\<rparr>"

definition mergeConfig :: "messenger_options \<Rightarrow> config \<Rightarrow> messenger_options" where
  "mergeConfig d c =
     \<lparr>o_headless = (case cfg_headless c of None \<Rightarrow> o_headless d | Some v \<Rightarrow> v),
      o_captchaApiKey = (case cfg_captchaApiKey c of None \<Rightarrow> o_captchaApiKey d | Some v \<Rightarrow> v),
      o_proxy = (case cfg_proxy c of None \<Rightarrow> o_proxy d | Some v \<Rightarrow> v),
      o_messageTemplates =
        (case cfg_messageTemplates c of None \<Rightarrow> o_messageTemplates d | Some v \<Rightarrow> v)\<rparr>"

definition redditMessenger ::
  "env \<Rightarrow> jsstring \<Rightarrow> jsstring \<Rightarrow> jsstring \<Rightarrow> jsstring \<Rightarrow> config \<Rightarrow> bool io" where
  "redditMessenger e username password targetUser messageText cfg =
     (let options = mergeConfig DEFAULT_CONFIG cfg in
      thenM (setBrowser None)
     (tryFinally
       (tryCatch
         (bindM (initBrowser e (o_headless options) (o_proxy options)) (\<lambda>b.
          thenM (setBrowser (Some b))
         (thenM (loginToReddit e username password (o_captchaApiKey options))
         (thenM (sendMessageToUser e targetUser messageText)
         (bindM (now e) (\<lambda>iso.
          thenM (saveResults e
                   (SingleResult [targetUser] messageText iso (o_headless options)
                      (truthy (o_proxy options)))
                   (js ''single-message''))
         (returnM True)))))))
         (\<lambda>err.
          bindM (now e) (\<lambda>iso.
          thenM (saveResults e
                   (SingleFailure
                      [\<lparr>user = targetUser, error = message err, timestamp = iso\<rparr>]
                      (o_headless options) (truthy (o_proxy options)))
                   (js ''failed-message''))
         (throwM err))))
       (closeBrowser e)))"

section \<open>Notions used to state the properties\<close>

text \<open>The events a computation added to the trace.\<close>

definition newEvents :: "state \<Rightarrow> state \<Rightarrow> event list" where
  "newEvents s s' = drop (length (trace s)) (trace s')"

text \<open>
  The entries of \<open>sendMessageToUser\<close> and the pacing delays, which together show how the
  batch loop went; and for a list of targets and a delay, the entries and delays expected:
  every target in turn, a delay between two targets, none after the last.
\<close>

fun isMarker :: "event \<Rightarrow> bool" where
  "isMarker (Invoke (SendMessageToUser u)) = True"
| "isMarker (PacingDelay d) = True"
| "isMarker _ = False"

fun isPacing :: "event \<Rightarrow> bool" where
  "isPacing (PacingDelay d) = True"
| "isPacing _ = False"

fun expectedMarkers :: "jsval \<Rightarrow> jsstring list \<Rightarrow> event list" where
  "expectedMarkers d [] = []"
| "expectedMarkers d [u] = [Invoke (SendMessageToUser u)]"
| "expectedMarkers d (u # v # us) =
     Invoke (SendMessageToUser u) # PacingDelay d # expectedMarkers d (v # us)"

fun targetsInvoked :: "event list \<Rightarrow> jsstring list" where
  "targetsInvoked [] = []"
| "targetsInvoked (Invoke (SendMessageToUser u) # evs) = u # targetsInvoked evs"
| "targetsInvoked (ev # evs) = targetsInvoked evs"

text \<open>
  The events that are neither the entry of \<open>sendMessageToUser\<close>, nor a pacing delay, nor
  the closing of the browser.
\<close>

fun quiet :: "event \<Rightarrow> bool" where
  "quiet (Invoke (SendMessageToUser u)) = False"
| "quiet (PacingDelay d) = False"
| "quiet (BrowserClose b) = False"
| "quiet _ = True"

text \<open>
  What the \<open>finally\<close> block makes of an outcome \<open>r\<close> when the variable holds the browser
  \<open>b\<close>: the browser is closed, and a failure to close it replaces the outcome.
\<close>

definition closing :: "env \<Rightarrow> nat \<Rightarrow> (error + 'a) \<Rightarrow> state \<Rightarrow> (error + 'a) \<times> state" where
  "closing e b r s =
     (case rejects e (trace s) (BrowserClose b) of
        Some x \<Rightarrow> (Inl (External x), s\<lparr>trace := trace s @ [BrowserClose b]\<rparr>)
      | None \<Rightarrow> (r, s\<lparr>trace := trace s @ [BrowserClose b]\<rparr>))"

text \<open>
  The target list in the words of the specification: going through the lines in order,
  each line is trimmed; an empty one is dropped, one that begins with the comment marker
  is dropped, any other is kept. \<open>joinLines\<close> puts a newline between the lines.
\<close>

fun keepTargets :: "jsstring list \<Rightarrow> jsstring list" where
  "keepTargets [] = []"
| "keepTargets (l # ls) =
     (case trim l of
        [] \<Rightarrow> keepTargets ls
      | c # cs \<Rightarrow> if c = hash then keepTargets ls else (c # cs) # keepTargets ls)"

fun joinLines :: "jsstring list \<Rightarrow> jsstring" where
  "joinLines [] = []"
| "joinLines [l] = l"
| "joinLines (l # k # ls) = l @ newline # joinLines (k # ls)"

text \<open>
  Two notions for the proofs. A computation \<open>emits P\<close> when it leaves the variable
  \<open>browser\<close> alone and only adds events satisfying \<open>P\<close> to the trace; it \<open>raises Q\<close>
  when every error it ends with satisfies \<open>Q\<close>.
\<close>

definition emits :: "(event \<Rightarrow> bool) \<Rightarrow> 'a io \<Rightarrow> bool" where
  "emits P m = (\<forall>s. browser (snd (m s)) = browser s \<and>
       (\<exists>evs. trace (snd (m s)) = trace s @ evs \<and> list_all P evs))"

definition raises :: "(error \<Rightarrow> bool) \<Rightarrow> 'a io \<Rightarrow> bool" where
  "raises Q m = (\<forall>s err. fst (m s) = Inl err \<longrightarrow> Q err)"

abbreviation solved :: "error \<Rightarrow> bool" where
  "solved err \<equiv> err \<noteq> CaptchaNoSolver"

section \<open>Concrete environments\<close>

text \<open>
  A file of three targets with a comment, padding and an empty line; an environment in
  which every call succeeds, the login page is left behind, no challenge shows, the
  profile of \<open>B\<close> says that nobody goes by that name, and the chat page shows neither a
  failure nor a success phrase.
\<close>

definition fixtureFile :: jsstring where
  "fixtureFile =
     js ''A'' @ [newline] @ js ''# note'' @ [newline] @ js '' B '' @ [newline, newline] @ js ''C''"

definition fixtureEnv :: env where
  "fixtureEnv =
     \<lparr>rejects = (\<lambda>tr ev. None),
      answers = (\<lambda>tr ev. True),
      fileContents = (\<lambda>tr. fixtureFile),
      browserHandle = (\<lambda>tr. 7),
      urlOf = (\<lambda>tr. js ''https://chat.reddit.com/room''),
      clock = (\<lambda>tr. js ''T''),
      captchaDom = (\<lambda>tr. \<lparr>recaptchaIframe = None, captchaContainer = None,
                            gRecaptchaShown = False\<rparr>),
      sitekeyFound = (\<lambda>tr. None),
      solverToken = (\<lambda>tr. []),
      loginDom = (\<lambda>tr. \<lparr>q_expandUserDrawerButton = False, q_userAvatar = False,
         q_userAvatarSpan = False, q_faceplateUserDrawer = False, q_userMenuTrigger = False,
         q_createButton = False, q_karma = False, q_loginUsername = False,
         q_loginForm = False\<rparr>),
      retryDom = (\<lambda>tr. \<lparr>r_expandUserDrawerButton = False, r_userAvatar = False,
         r_userAvatarSpan = False, r_faceplateUserDrawer = False, r_loginUsername = True,
         r_href = js ''https://www.reddit.com/login'', r_userTestid = False,
         r_createButton = False\<rparr>),
      profileText = (\<lambda>tr. if last tr = Goto (js ''https://www.reddit.com/user/B'')
                          then js ''Sorry, nobody on Reddit goes by that name''
                          else js ''u/''),
      chatLink = (\<lambda>tr. Some (js ''https://chat.reddit.com/user/x'')),
      viewport = (\<lambda>tr. (1366, 768)),
      deliveryDom = (\<lambda>tr. \<lparr>bodyText = js ''hi'', messageSentElement = False\<rparr>)\<rparr>"

definition fixtureOptions :: batch_options where
  "fixtureOptions =
     \<lparr>opt_headless = JBool False, opt_proxy = JNull, opt_captchaApiKey = JUndefined,
      opt_delay = JNum 60000\<rparr>"

definition emptyState :: state where
  "emptyState = \<lparr>trace = [], browser = None\<rparr>"

text \<open>The same environment stuck on the login page, with the login form still shown.\<close>

definition stuckEnv :: env where
  "stuckEnv =
     fixtureEnv
       \<lparr>urlOf := (\<lambda>tr. js ''https://www.reddit.com/login''),
        loginDom := (\<lambda>tr. \<lparr>q_expandUserDrawerButton = False, q_userAvatar = False,
           q_userAvatarSpan = False, q_faceplateUserDrawer = False, q_userMenuTrigger = False,
           q_createButton = False, q_karma = False, q_loginUsername = True,
           q_loginForm = True\<rparr>)\<rparr>"

text \<open>The same environment showing a challenge after the login form was sent.\<close>

definition captchaEnv :: env where
  "captchaEnv =
     fixtureEnv
       \<lparr>captchaDom := (\<lambda>tr.
          \<lparr>recaptchaIframe = Some \<lparr>width = 300, height = 80, display = js ''block'',
                                  visibility = js ''visible''\<rparr>,
           captchaContainer = None, gRecaptchaShown = True\<rparr>)\<rparr>"

text \<open>The same environment with a chat page that reports a failure.\<close>

definition failingChatEnv :: env where
  "failingChatEnv =
     fixtureEnv
       \<lparr>deliveryDom := (\<lambda>tr. \<lparr>bodyText = js ''Failed to send'',
                                messageSentElement = False\<rparr>)\<rparr>"

text \<open>
  The same environment in which the browser starts and then refuses to open a page.
\<close>

definition brokenPageEnv :: env where
  "brokenPageEnv =
     fixtureEnv
       \<lparr>rejects := (\<lambda>tr ev. case ev of NewPage \<Rightarrow> Some (js ''Target closed'')
                                        | _ \<Rightarrow> None)\<rparr>"

definition noConfig :: config where
  "noConfig = \<lparr>cfg_headless = None, cfg_captchaApiKey = None, cfg_proxy = None,
                cfg_messageTemplates = None\<rparr>"

section \<open>Frame lemmas\<close>

lemmas io_defs = returnM_def throwM_def bindM_def thenM_def tryCatch_def tryFinally_def
  emit_def call_def callUnit_def callBool_def pageUrl_def now_def setBrowser_def

lemma newEvents_append [simp]: "newEvents s (s'\<lparr>trace := trace s @ evs\<rparr>) = evs"
  by (simp add: newEvents_def)

lemma emitsD:
  assumes "emits P m" and "m s = (r, s')"
  obtains evs where "s' = s\<lparr>trace := trace s @ evs\<rparr>" and "list_all P evs"
proof -
  from assms obtain evs where
    1: "trace s' = trace s @ evs" "list_all P evs" "browser s' = browser s"
    unfolding emits_def by (metis snd_conv)
  have "s' = s\<lparr>trace := trace s @ evs\<rparr>"
    using 1 by (intro state.equality) simp_all
  with 1(2) that show ?thesis by blast
qed

lemma emitsI:
  assumes "\<And>s. \<exists>evs. snd (m s) = s\<lparr>trace := trace s @ evs\<rparr> \<and> list_all P evs"
  shows "emits P m"
  unfolding emits_def
proof (intro allI)
  fix s
  from assms[of s] obtain evs where "snd (m s) = s\<lparr>trace := trace s @ evs\<rparr>" "list_all P evs"
    by blast
  then show "browser (snd (m s)) = browser s \<and>
       (\<exists>evs. trace (snd (m s)) = trace s @ evs \<and> list_all P evs)" by simp
qed

lemma emits_returnM: "emits P (returnM x)"
  by (simp add: emits_def returnM_def)

lemma emits_throwM: "emits P (throwM x)"
  by (simp add: emits_def throwM_def)

lemma emits_emit: "P ev \<Longrightarrow> emits P (emit ev)"
  by (simp add: emits_def emit_def)

lemma emits_call: "P ev \<Longrightarrow> emits P (call e ev f)"
  by (simp add: emits_def call_def split: option.splits)

lemma emits_callUnit: "P ev \<Longrightarrow> emits P (callUnit e ev)"
  by (simp add: callUnit_def emits_call)

lemma emits_callBool: "P ev \<Longrightarrow> emits P (callBool e ev)"
  by (simp add: callBool_def emits_call)

lemma emits_pageUrl: "emits P (pageUrl e)"
  by (simp add: emits_def pageUrl_def)

lemma emits_now: "emits P (now e)"
  by (simp add: emits_def now_def)

lemma emits_bindM:
  assumes "emits P m" and "\<And>x. emits P (f x)"
  shows "emits P (bindM m f)"
proof (rule emitsI)
  fix s
  obtain r s1 where m: "m s = (r, s1)" by (cases "m s")
  from emitsD[OF assms(1) m] obtain evs where
    1: "s1 = s\<lparr>trace := trace s @ evs\<rparr>" "list_all P evs" by blast
  show "\<exists>evs. snd (bindM m f s) = s\<lparr>trace := trace s @ evs\<rparr> \<and> list_all P evs"
  proof (cases r)
    case (Inl err)
    then show ?thesis using m 1 by (auto simp add: bindM_def)
  next
    case (Inr x)
    obtain r2 s2 where f: "f x s1 = (r2, s2)" by (cases "f x s1")
    from emitsD[OF assms(2) f] obtain evs2 where
      2: "s2 = s1\<lparr>trace := trace s1 @ evs2\<rparr>" "list_all P evs2" by blast
    have "snd (bindM m f s) = s\<lparr>trace := trace s @ (evs @ evs2)\<rparr>"
      using m Inr f 1 2 by (simp add: bindM_def)
    moreover have "list_all P (evs @ evs2)" using 1 2 by simp
    ultimately show ?thesis by blast
  qed
qed

lemma emits_thenM: "emits P m \<Longrightarrow> emits P n \<Longrightarrow> emits P (thenM m n)"
  by (simp add: thenM_def emits_bindM)

lemma emits_tryCatch:
  assumes "emits P m" and "\<And>x. emits P (h x)"
  shows "emits P (tryCatch m h)"
proof (rule emitsI)
  fix s
  obtain r s1 where m: "m s = (r, s1)" by (cases "m s")
  from emitsD[OF assms(1) m] obtain evs where
    1: "s1 = s\<lparr>trace := trace s @ evs\<rparr>" "list_all P evs" by blast
  show "\<exists>evs. snd (tryCatch m h s) = s\<lparr>trace := trace s @ evs\<rparr> \<and> list_all P evs"
  proof (cases r)
    case (Inr x)
    then show ?thesis using m 1 by (auto simp add: tryCatch_def)
  next
    case (Inl x)
    obtain r2 s2 where f: "h x s1 = (r2, s2)" by (cases "h x s1")
    from emitsD[OF assms(2) f] obtain evs2 where
      2: "s2 = s1\<lparr>trace := trace s1 @ evs2\<rparr>" "list_all P evs2" by blast
    have "snd (tryCatch m h s) = s\<lparr>trace := trace s @ (evs @ evs2)\<rparr>"
      using m Inl f 1 2 by (simp add: tryCatch_def)
    moreover have "list_all P (evs @ evs2)" using 1 2 by simp
    ultimately show ?thesis by blast
  qed
qed

lemma emits_if: "emits P a \<Longrightarrow> emits P b \<Longrightarrow> emits P (if c then a else b)"
  by simp

lemma emits_case_option:
  "emits P a \<Longrightarrow> (\<And>x. emits P (b x)) \<Longrightarrow> emits P (case v of None \<Rightarrow> a | Some x \<Rightarrow> b x)"
  by (cases v) simp_all

lemmas emits_intros = emits_returnM emits_throwM emits_emit emits_call emits_callUnit
  emits_callBool emits_pageUrl emits_now emits_bindM emits_thenM emits_tryCatch emits_if
  emits_case_option

lemma emits_initBrowser: "emits quiet (initBrowser e h p)"
  unfolding initBrowser_def by (intro emits_intros) simp_all

lemma emits_handleCaptchaIfPresent: "emits quiet (handleCaptchaIfPresent e sv)"
  unfolding handleCaptchaIfPresent_def by (intro emits_intros) simp_all

lemma emits_verifyLoginSuccess: "emits quiet (verifyLoginSuccess e)"
  unfolding verifyLoginSuccess_def Let_def by (intro emits_intros) simp_all

lemma emits_submitCredentials: "emits quiet (submitCredentials e u p)"
  unfolding submitCredentials_def by (intro emits_intros) simp_all

lemma emits_loginToReddit: "emits quiet (loginToReddit e u p k)"
  unfolding loginToReddit_def Let_def
  by (intro emits_intros emits_submitCredentials emits_handleCaptchaIfPresent
        emits_verifyLoginSuccess) simp_all

lemma emits_extractChatUrl: "emits quiet (extractChatUrl e)"
  unfolding extractChatUrl_def by (intro emits_intros) simp_all

lemma emits_composeAndSubmit: "emits quiet (composeAndSubmit e m)"
  unfolding composeAndSubmit_def by (intro emits_intros) simp_all

lemma emits_confirmDelivery: "emits quiet (confirmDelivery e)"
  unfolding confirmDelivery_def by (intro emits_intros) simp_all

lemma emits_sendMessageInChatInterface: "emits quiet (sendMessageInChatInterface e m)"
  unfolding sendMessageInChatInterface_def
  by (intro emits_intros emits_composeAndSubmit emits_confirmDelivery) simp_all

lemma emits_openChat: "emits quiet (openChat e u)"
  unfolding openChat_def
  by (intro emits_intros emits_extractChatUrl) simp_all

lemma emits_saveResults: "emits quiet (saveResults e d p)"
  unfolding saveResults_def Let_def by (intro emits_intros) simp_all

lemma quiet_not_marker: "quiet ev \<Longrightarrow> \<not> isMarker ev"
  by (cases ev rule: quiet.cases) simp_all

lemma filter_quiet: "list_all quiet evs \<Longrightarrow> filter isMarker evs = []"
  by (induction evs) (auto dest: quiet_not_marker)

lemma targetsInvoked_append:
  "targetsInvoked (xs @ ys) = targetsInvoked xs @ targetsInvoked ys"
  by (induction xs rule: targetsInvoked.induct) simp_all

lemma targetsInvoked_filter: "targetsInvoked (filter isMarker evs) = targetsInvoked evs"
  by (induction evs rule: targetsInvoked.induct) simp_all

lemma targetsInvoked_quiet: "list_all quiet evs \<Longrightarrow> targetsInvoked evs = []"
  using targetsInvoked_filter[of evs] by (simp add: filter_quiet)

lemma targetsInvoked_expected: "targetsInvoked (expectedMarkers d users) = users"
  by (induction d users rule: expectedMarkers.induct) simp_all

lemma isPacing_filter: "filter isPacing (filter isMarker evs) = filter isPacing evs"
proof -
  have "\<And>ev. isPacing ev \<Longrightarrow> isMarker ev"
    subgoal for ev by (cases ev rule: isPacing.cases) simp_all
    done
  then show ?thesis by (induction evs) auto
qed

lemma pacing_expected: "length (filter isPacing (expectedMarkers d users)) = length users - 1"
  by (induction d users rule: expectedMarkers.induct) simp_all

section \<open>The batch loop\<close>

lemma sendMessageToUser_trace:
  assumes "sendMessageToUser e u m s = (r, s1)"
  obtains evs where "s1 = s\<lparr>trace := trace s @ Invoke (SendMessageToUser u) # evs\<rparr>"
    and "list_all quiet evs"
proof -
  let ?body = "tryCatch (thenM (openChat e u) (thenM (sendMessageInChatInterface e m) (returnM True)))
      (\<lambda>err. throwM err)"
  let ?s0 = "s\<lparr>trace := trace s @ [Invoke (SendMessageToUser u)]\<rparr>"
  have em: "emits quiet ?body"
    by (intro emits_intros emits_openChat emits_sendMessageInChatInterface)
  have run: "?body ?s0 = (r, s1)"
    using assms by (simp add: sendMessageToUser_def thenM_def bindM_def emit_def)
  from emitsD[OF em run] obtain evs where
    1: "s1 = ?s0\<lparr>trace := trace ?s0 @ evs\<rparr>" "list_all quiet evs" by blast
  have "s1 = s\<lparr>trace := trace s @ Invoke (SendMessageToUser u) # evs\<rparr>"
    using 1(1) by simp
  then show ?thesis using 1(2) that by blast
qed

lemma batchLoop_failure_step:
  assumes "i < length users" and "sendMessageToUser e (users ! i) m s = (Inl err, s1)"
  shows "batchLoop e users m d i res s =
         batchLoop e users m d (i + 1)
           (res\<lparr>failed := failed res @
              [\<lparr>user = users ! i, error = message err, timestamp = clock e (trace s1)\<rparr>]\<rparr>)
           (if i + 1 < length users then s1\<lparr>trace := trace s1 @ [PacingDelay d]\<rparr> else s1)"
  using assms by (subst batchLoop.simps) (auto simp add: Let_def io_defs)

lemma batchLoop_success_step:
  assumes "i < length users" and "sendMessageToUser e (users ! i) m s = (Inr ok, s1)"
  shows "batchLoop e users m d i res s =
         batchLoop e users m d (i + 1) (res\<lparr>success := success res @ [users ! i]\<rparr>)
           (if i + 1 < length users then s1\<lparr>trace := trace s1 @ [PacingDelay d]\<rparr> else s1)"
  using assms by (subst batchLoop.simps) (auto simp add: Let_def io_defs)

lemma batchLoop_done: "\<not> i < length users \<Longrightarrow> batchLoop e users m d i res s = (Inr res, s)"
  by (subst batchLoop.simps) simp

lemma batchLoop_runs:
  "\<exists>res' evs. batchLoop e users m d i res s = (Inr res', s\<lparr>trace := trace s @ evs\<rparr>) \<and>
      filter isMarker evs = expectedMarkers d (drop i users) \<and>
      length (success res') + length (failed res') =
        length (success res) + length (failed res) + (length users - i) \<and>
      prefix (success res) (success res') \<and> prefix (failed res) (failed res')"
proof (induction "length users - i" arbitrary: i res s)
  case 0
  then have "\<not> i < length users" by simp
  then show ?case
    by (auto simp add: batchLoop_done intro!: exI[of _ "[]"])
next
  case (Suc n)
  then have lt: "i < length users" by simp
  let ?u = "users ! i"
  obtain r0 s1 where send: "sendMessageToUser e ?u m s = (r0, s1)"
    by (cases "sendMessageToUser e ?u m s")
  from sendMessageToUser_trace[OF send] obtain evs where
    1: "s1 = s\<lparr>trace := trace s @ Invoke (SendMessageToUser ?u) # evs\<rparr>" "list_all quiet evs"
    by blast
  let ?pause = "if i + 1 < length users then [PacingDelay d] else []"
  let ?s2 = "if i + 1 < length users then s1\<lparr>trace := trace s1 @ [PacingDelay d]\<rparr> else s1"
  have s2: "?s2 = s\<lparr>trace := trace s @ Invoke (SendMessageToUser ?u) # evs @ ?pause\<rparr>"
    using 1(1) by simp
  obtain res1 where step: "batchLoop e users m d i res s = batchLoop e users m d (i + 1) res1 ?s2"
    and grow: "length (success res1) + length (failed res1) =
                 Suc (length (success res) + length (failed res))"
      "prefix (success res) (success res1)" "prefix (failed res) (failed res1)"
  proof (cases r0)
    case (Inl err)
    show ?thesis
      by (rule that[OF batchLoop_failure_step[OF lt send[unfolded Inl]]]) simp_all
  next
    case (Inr ok)
    show ?thesis
      by (rule that[OF batchLoop_success_step[OF lt send[unfolded Inr]]]) simp_all
  qed
  have "n = length users - (i + 1)" using Suc(2) by simp
  from Suc(1)[OF this, of res1 ?s2] obtain res' evs' where
    2: "batchLoop e users m d (i + 1) res1 ?s2 = (Inr res', ?s2\<lparr>trace := trace ?s2 @ evs'\<rparr>)"
       "filter isMarker evs' = expectedMarkers d (drop (i + 1) users)"
       "length (success res') + length (failed res') =
          length (success res1) + length (failed res1) + (length users - (i + 1))"
       "prefix (success res1) (success res')" "prefix (failed res1) (failed res')"
    by blast
  have d: "drop i users = ?u # drop (Suc i) users"
    using lt by (simp add: Cons_nth_drop_Suc)
  have mk: "filter isMarker (Invoke (SendMessageToUser ?u) # evs @ ?pause @ evs')
            = expectedMarkers d (drop i users)"
  proof (cases "i + 1 < length users")
    case True
    then obtain v vs where "drop (Suc i) users = v # vs"
      by (cases "drop (Suc i) users") auto
    then show ?thesis using True 2(2) filter_quiet[OF 1(2)] d by simp
  next
    case False
    then have "drop (Suc i) users = []" by simp
    then show ?thesis using False 2(2) filter_quiet[OF 1(2)] d by simp
  qed
  have fin: "batchLoop e users m d i res s =
      (Inr res', s\<lparr>trace := trace s @ (Invoke (SendMessageToUser ?u) # evs @ ?pause @ evs')\<rparr>)"
    unfolding step 2(1) by (subst s2)+ simp
  have len: "length (success res') + length (failed res') =
        length (success res) + length (failed res) + (length users - i)"
    using 2(3) grow(1) lt by simp
  have pre: "prefix (success res) (success res')" "prefix (failed res) (failed res')"
    using grow 2(4,5) by (auto intro: prefix_order.trans)
  show ?case
    using fin mk len pre by blast
qed

lemma emits_batchLoop: "emits (\<lambda>ev. True) (batchLoop e users m d i res)"
proof (rule emitsI)
  fix s
  from batchLoop_runs[of e users m d i res s] obtain res' evs where
    "batchLoop e users m d i res s = (Inr res', s\<lparr>trace := trace s @ evs\<rparr>)" by blast
  then show "\<exists>evs. snd (batchLoop e users m d i res s) = s\<lparr>trace := trace s @ evs\<rparr> \<and>
      list_all (\<lambda>ev. True) evs"
    by (auto simp: list_all_iff)
qed

section \<open>The shape of a run\<close>

lemma finally_close:
  assumes "m s0 = (r, s)" and "browser s = Some b"
  shows "tryFinally m (closeBrowser e) s0 = closing e b r s"
  using assms
  by (simp add: tryFinally_def closeBrowser_def closing_def callUnit_def call_def
      split: option.splits)

lemma finally_none:
  assumes "m s0 = (r, s)" and "browser s = None"
  shows "tryFinally m (closeBrowser e) s0 = (r, s)"
  using assms by (simp add: tryFinally_def closeBrowser_def)

lemma closing_trace: "trace (snd (closing e b r s)) = trace s @ [BrowserClose b]"
  by (simp add: closing_def split: option.splits)

lemma closing_Inl: "\<exists>err. fst (closing e b (Inl x) s) = Inl err"
  by (simp add: closing_def split: option.splits)

lemma browser_kept:
  assumes "emits P m" and "m s = (r, s')"
  shows "browser s' = browser s"
  using emitsD[OF assms] by (metis state.select_convs(2) state.surjective state.update_convs(1))

lemma batch_run_eq:
  assumes rf: "call e (ReadFile f) (fileContents e) (s\<lparr>browser := None\<rparr>) = (Inr usersData, s1)"
      and ib: "initBrowser e (JBool (opt_headless opts \<noteq> JBool False)) (opt_proxy opts) s1
               = (Inr b, s2)"
  shows "processOptimizedBatch e u p f m opts s =
     (case loginToReddit e u p (opt_captchaApiKey opts) (s2\<lparr>browser := Some b\<rparr>) of
        (Inl err, s3) \<Rightarrow> closing e b (Inl err) s3
      | (Inr ok, s3) \<Rightarrow>
         (case batchLoop e (parseUsers usersData) m
                 (if truthy (opt_delay opts) then opt_delay opts else JNum 30000) 0
                 \<lparr>success = [], failed = []\<rparr> s3 of
            (Inl err, s4) \<Rightarrow> closing e b (Inl err) s4
          | (Inr res, s4) \<Rightarrow>
             (case saveResults e (BatchResults res) (js ''batch'') s4 of
                (Inl err, s5) \<Rightarrow> closing e b (Inl err) s5
              | (Inr file, s5) \<Rightarrow> closing e b (Inr res) s5)))"
proof -
  let ?delay = "if truthy (opt_delay opts) then opt_delay opts else JNum 30000"
  let ?body = "tryCatch
        (bindM (call e (ReadFile f) (fileContents e)) (\<lambda>usersData.
         (let users = parseUsers usersData in
          bindM (initBrowser e (JBool (opt_headless opts \<noteq> JBool False))
                   (opt_proxy opts)) (\<lambda>b.
          thenM (setBrowser (Some b))
         (thenM (loginToReddit e u p (opt_captchaApiKey opts))
         (let delay = (if truthy (opt_delay opts) then opt_delay opts
                       else JNum 30000) in
          bindM (batchLoop e users m delay 0 \<lparr>success = [], failed = []\<rparr>)
            (\<lambda>res.
          bindM (saveResults e (BatchResults res) (js ''batch'')) (\<lambda>resultsFile.
          returnM res))))))))
        (\<lambda>err. throwM err)"
  have run: "processOptimizedBatch e u p f m opts s =
             tryFinally ?body (closeBrowser e) (s\<lparr>browser := None\<rparr>)"
    by (simp add: processOptimizedBatch_def thenM_def bindM_def setBrowser_def)
  obtain r3 s3 where lg: "loginToReddit e u p (opt_captchaApiKey opts) (s2\<lparr>browser := Some b\<rparr>)
      = (r3, s3)" by (cases "loginToReddit e u p (opt_captchaApiKey opts) (s2\<lparr>browser := Some b\<rparr>)")
  have b3: "browser s3 = Some b"
    using browser_kept[OF emits_loginToReddit lg] by simp
  show ?thesis
  proof (cases r3)
    case (Inl err)
    have "?body (s\<lparr>browser := None\<rparr>) = (Inl err, s3)"
      using rf ib lg Inl
      by (simp add: tryCatch_def bindM_def thenM_def Let_def setBrowser_def throwM_def)
    from finally_close[of ?body "s\<lparr>browser := None\<rparr>", OF this b3] show ?thesis
      using run lg Inl by simp
  next
    case (Inr ok)
    obtain r4 s4 where lp: "batchLoop e (parseUsers usersData) m ?delay 0
        \<lparr>success = [], failed = []\<rparr> s3 = (r4, s4)"
      by (cases "batchLoop e (parseUsers usersData) m ?delay 0 \<lparr>success = [], failed = []\<rparr> s3")
    have b4: "browser s4 = Some b"
      using browser_kept[OF emits_batchLoop lp] b3 by simp
    show ?thesis
    proof (cases r4)
      case (Inl err)
      have "?body (s\<lparr>browser := None\<rparr>) = (Inl err, s4)"
        using rf ib lg Inr lp Inl
        by (simp add: tryCatch_def bindM_def thenM_def Let_def setBrowser_def throwM_def)
      from finally_close[of ?body "s\<lparr>browser := None\<rparr>", OF this b4] show ?thesis
        using run lg Inr lp Inl by simp
    next
      case res: (Inr res)
      obtain r5 s5 where sv: "saveResults e (BatchResults res) (js ''batch'') s4 = (r5, s5)"
        by (cases "saveResults e (BatchResults res) (js ''batch'') s4")
      have b5: "browser s5 = Some b"
        using browser_kept[OF emits_saveResults sv] b4 by simp
      show ?thesis
      proof (cases r5)
        case (Inl err)
        have "?body (s\<lparr>browser := None\<rparr>) = (Inl err, s5)"
          using rf ib lg Inr lp res sv Inl
          by (simp add: tryCatch_def bindM_def thenM_def Let_def setBrowser_def throwM_def)
        from finally_close[of ?body "s\<lparr>browser := None\<rparr>", OF this b5] show ?thesis
          using run lg Inr lp res sv Inl by simp
      next
        case saved: (Inr fname)
        have "?body (s\<lparr>browser := None\<rparr>) = (Inr res, s5)"
          using rf ib lg Inr lp res sv saved
          by (simp add: tryCatch_def bindM_def thenM_def Let_def setBrowser_def throwM_def
              returnM_def)
        from finally_close[of ?body "s\<lparr>browser := None\<rparr>", OF this b5] show ?thesis
          using run lg Inr lp res sv saved by simp
      qed
    qed
  qed
qed

lemma emits_weaken: "emits P m \<Longrightarrow> emits (\<lambda>ev. True) m"
  unfolding emits_def by (metis (mono_tags, lifting) Ball_set list.pred_set)

lemma emits_sendMessageToUser: "emits (\<lambda>ev. True) (sendMessageToUser e u m)"
  unfolding sendMessageToUser_def
  by (intro emits_intros emits_weaken[OF emits_openChat]
        emits_weaken[OF emits_sendMessageInChatInterface]) simp_all

lemma messenger_run_closes:
  assumes ib: "initBrowser e (o_headless (mergeConfig DEFAULT_CONFIG cfg))
                 (o_proxy (mergeConfig DEFAULT_CONFIG cfg)) (s\<lparr>browser := None\<rparr>) = (Inr b, s1)"
  shows "\<exists>r s'. redditMessenger e u p t m cfg s = closing e b r s'"
proof -
  let ?o = "mergeConfig DEFAULT_CONFIG cfg"
  let ?rest = "thenM (loginToReddit e u p (o_captchaApiKey ?o))
         (thenM (sendMessageToUser e t m)
         (bindM (now e) (\<lambda>iso.
          thenM (saveResults e
                   (SingleResult [t] m iso (o_headless ?o)
                      (truthy (o_proxy ?o)))
                   (js ''single-message''))
         (returnM True))))"
  let ?handler = "\<lambda>err.
          bindM (now e) (\<lambda>iso.
          thenM (saveResults e
                   (SingleFailure
                      [\<lparr>user = t, error = message err, timestamp = iso\<rparr>]
                      (o_headless ?o) (truthy (o_proxy ?o)))
                   (js ''failed-message''))
         (throwM err))"
  let ?body = "tryCatch
         (bindM (initBrowser e (o_headless ?o) (o_proxy ?o)) (\<lambda>b.
          thenM (setBrowser (Some b)) ?rest))
         ?handler"
  have run: "redditMessenger e u p t m cfg s = tryFinally ?body (closeBrowser e) (s\<lparr>browser := None\<rparr>)"
    by (simp add: redditMessenger_def Let_def thenM_def bindM_def setBrowser_def)
  have em: "emits (\<lambda>ev. True) (tryCatch ?rest ?handler)"
    by (intro emits_intros emits_weaken[OF emits_loginToReddit] emits_sendMessageToUser
          emits_weaken[OF emits_saveResults])
  obtain r s' where rest: "tryCatch ?rest ?handler (s1\<lparr>browser := Some b\<rparr>) = (r, s')"
    by (cases "tryCatch ?rest ?handler (s1\<lparr>browser := Some b\<rparr>)")
  have b': "browser s' = Some b"
    using browser_kept[OF em rest] by simp
  have "?body (s\<lparr>browser := None\<rparr>) = (r, s')"
    using ib rest by (simp add: tryCatch_def bindM_def thenM_def setBrowser_def)
  from finally_close[of ?body "s\<lparr>browser := None\<rparr>", OF this b'] run show ?thesis
    by auto
qed

section \<open>Which errors a function can raise\<close>

lemma raisesD: "raises Q m \<Longrightarrow> m s = (Inl err, s') \<Longrightarrow> Q err"
  unfolding raises_def by (metis fst_conv)

lemma raises_returnM: "raises Q (returnM x)"
  by (simp add: raises_def returnM_def)

lemma raises_throwM: "Q err \<Longrightarrow> raises Q (throwM err)"
  by (simp add: raises_def throwM_def)

lemma raises_emit: "raises Q (emit ev)"
  by (simp add: raises_def emit_def)

lemma raises_call: "(\<And>x. Q (External x)) \<Longrightarrow> raises Q (call e ev f)"
  by (auto simp add: raises_def call_def split: option.splits)

lemma raises_callUnit: "(\<And>x. Q (External x)) \<Longrightarrow> raises Q (callUnit e ev)"
  by (simp add: callUnit_def raises_call)

lemma raises_callBool: "(\<And>x. Q (External x)) \<Longrightarrow> raises Q (callBool e ev)"
  by (simp add: callBool_def raises_call)

lemma raises_pageUrl: "raises Q (pageUrl e)"
  by (simp add: raises_def pageUrl_def)

lemma raises_now: "raises Q (now e)"
  by (simp add: raises_def now_def)

lemma raises_setBrowser: "raises Q (setBrowser b)"
  by (simp add: raises_def setBrowser_def)

lemma raises_bindM:
  assumes "raises Q m" and "\<And>x. raises Q (f x)"
  shows "raises Q (bindM m f)"
  unfolding raises_def
proof (intro allI impI)
  fix s err
  assume a: "fst (bindM m f s) = Inl err"
  obtain r s1 where m: "m s = (r, s1)" by (cases "m s")
  show "Q err"
  proof (cases r)
    case (Inl x)
    with a m have "x = err" by (simp add: bindM_def)
    with raisesD[OF assms(1) m[unfolded Inl]] show ?thesis by simp
  next
    case (Inr x)
    with a m have "fst (f x s1) = Inl err" by (simp add: bindM_def)
    with assms(2)[of x] show ?thesis unfolding raises_def by blast
  qed
qed

lemma raises_thenM: "raises Q m \<Longrightarrow> raises Q n \<Longrightarrow> raises Q (thenM m n)"
  by (simp add: thenM_def raises_bindM)

lemma raises_tryCatch:
  assumes "\<And>x. raises Q (h x)"
  shows "raises Q (tryCatch m h)"
  unfolding raises_def
proof (intro allI impI)
  fix s err
  assume a: "fst (tryCatch m h s) = Inl err"
  obtain r s1 where m: "m s = (r, s1)" by (cases "m s")
  show "Q err"
  proof (cases r)
    case (Inl x)
    with a m have "fst (h x s1) = Inl err" by (simp add: tryCatch_def)
    with assms[of x] show ?thesis unfolding raises_def by blast
  next
    case (Inr x)
    with a m show ?thesis by (simp add: tryCatch_def)
  qed
qed

lemma raises_rethrow:
  assumes "raises Q m" and "\<And>x. Q x \<Longrightarrow> raises Q (h x)"
  shows "raises Q (tryCatch m h)"
  unfolding raises_def
proof (intro allI impI)
  fix s err
  assume a: "fst (tryCatch m h s) = Inl err"
  obtain r s1 where m: "m s = (r, s1)" by (cases "m s")
  show "Q err"
  proof (cases r)
    case (Inl x)
    with a m have 1: "fst (h x s1) = Inl err" by (simp add: tryCatch_def)
    from raisesD[OF assms(1) m[unfolded Inl]] have "Q x" .
    from assms(2)[OF this] 1 show ?thesis unfolding raises_def by blast
  next
    case (Inr x)
    with a m show ?thesis by (simp add: tryCatch_def)
  qed
qed

lemma raises_tryFinally:
  assumes "raises Q m" and "raises Q fin"
  shows "raises Q (tryFinally m fin)"
  unfolding raises_def
proof (intro allI impI)
  fix s err
  assume a: "fst (tryFinally m fin s) = Inl err"
  obtain r s1 where m: "m s = (r, s1)" by (cases "m s")
  obtain r2 s2 where f: "fin s1 = (r2, s2)" by (cases "fin s1")
  show "Q err"
  proof (cases r2)
    case (Inl x)
    with a m f have "x = err" by (simp add: tryFinally_def)
    with raisesD[OF assms(2) f[unfolded Inl]] show ?thesis by simp
  next
    case (Inr x)
    with a m f have "r = Inl err" by (simp add: tryFinally_def)
    with raisesD[OF assms(1)] m show ?thesis by blast
  qed
qed

lemma raises_closeBrowser: "(\<And>x. Q (External x)) \<Longrightarrow> raises Q (closeBrowser e)"
  by (auto simp add: raises_def closeBrowser_def callUnit_def call_def split: option.splits)

lemma raises_if: "raises Q a \<Longrightarrow> raises Q b \<Longrightarrow> raises Q (if c then a else b)"
  by simp

lemma raises_case_option:
  "raises Q a \<Longrightarrow> (\<And>x. raises Q (b x)) \<Longrightarrow> raises Q (case v of None \<Rightarrow> a | Some x \<Rightarrow> b x)"
  by (cases v) simp_all

lemmas raises_intros = raises_returnM raises_throwM raises_emit raises_call raises_callUnit
  raises_callBool raises_pageUrl raises_now raises_setBrowser raises_bindM raises_thenM
  raises_tryFinally raises_closeBrowser raises_if raises_case_option

lemma raises_initBrowser: "raises solved (initBrowser e h p)"
  unfolding initBrowser_def by (intro raises_intros) simp_all

lemma raises_handleCaptcha_Some: "raises solved (handleCaptchaIfPresent e (Some sv))"
  unfolding handleCaptchaIfPresent_def option.case by (intro raises_intros) simp_all

lemma raises_verifyLoginSuccess: "raises solved (verifyLoginSuccess e)"
  unfolding verifyLoginSuccess_def
  by (intro raises_intros raises_tryCatch)

lemma raises_submitCredentials: "raises solved (submitCredentials e u p)"
  unfolding submitCredentials_def by (intro raises_intros) simp_all

lemma raises_loginToReddit: "truthy k \<Longrightarrow> raises solved (loginToReddit e u p k)"
  unfolding loginToReddit_def Let_def makeSolver_def
  by (simp only: if_True)
     (intro raises_intros raises_rethrow raises_submitCredentials raises_handleCaptcha_Some
        raises_verifyLoginSuccess; simp)

lemma raises_saveResults: "raises solved (saveResults e d p)"
  unfolding saveResults_def Let_def by (intro raises_intros raises_tryCatch) simp_all

lemma raises_composeAndSubmit: "raises solved (composeAndSubmit e m)"
  unfolding composeAndSubmit_def by (intro raises_intros raises_tryCatch) simp_all

lemma raises_sendMessageToUser: "raises solved (sendMessageToUser e u m)"
  unfolding sendMessageToUser_def openChat_def extractChatUrl_def sendMessageInChatInterface_def
    confirmDelivery_def
  by (intro raises_intros raises_rethrow raises_composeAndSubmit) simp_all

lemma raises_redditMessenger:
  assumes "truthy (o_captchaApiKey (mergeConfig DEFAULT_CONFIG cfg))"
  shows "raises solved (redditMessenger e u p t m cfg)"
  unfolding redditMessenger_def Let_def
  by (intro raises_intros raises_rethrow raises_initBrowser raises_loginToReddit[OF assms]
        raises_sendMessageToUser raises_saveResults) simp_all

section \<open>Facts about the concrete environments\<close>

lemma chat_url_facts:
  "\<not> includesStr (js ''https://chat.reddit.com/room'') (js ''/login'')"
  "\<not> includesStr (js ''https://chat.reddit.com/room'') (js ''/register'')"
  "\<not> includesStr (js ''https://chat.reddit.com/room'') (js ''/error'')"
  "includesStr (js ''https://chat.reddit.com/room'') (js ''chat.reddit.com'')"
  by code_simp+

lemma login_url_facts:
  "includesStr (js ''https://www.reddit.com/login'') (js ''/login'')"
  by code_simp

lemma fixture_fields [simp]:
  "rejects fixtureEnv tr ev = None"
  "answers fixtureEnv tr ev = True"
  "fileContents fixtureEnv tr = fixtureFile"
  "browserHandle fixtureEnv tr = 7"
  "urlOf fixtureEnv tr = js ''https://chat.reddit.com/room''"
  "clock fixtureEnv tr = js ''T''"
  "captchaDom fixtureEnv tr =
     \<lparr>recaptchaIframe = None, captchaContainer = None, gRecaptchaShown = False\<rparr>"
  "sitekeyFound fixtureEnv tr = None"
  "chatLink fixtureEnv tr = Some (js ''https://chat.reddit.com/user/x'')"
  "deliveryDom fixtureEnv tr = \<lparr>bodyText = js ''hi'', messageSentElement = False\<rparr>"
  "loginDom fixtureEnv tr = \<lparr>q_expandUserDrawerButton = False, q_userAvatar = False,
         q_userAvatarSpan = False, q_faceplateUserDrawer = False, q_userMenuTrigger = False,
         q_createButton = False, q_karma = False, q_loginUsername = False,
         q_loginForm = False\<rparr>"
  by (simp_all add: fixtureEnv_def)

lemma stuck_fields [simp]:
  "rejects stuckEnv tr ev = None"
  "urlOf stuckEnv tr = js ''https://www.reddit.com/login''"
  "loginDom stuckEnv tr = \<lparr>q_expandUserDrawerButton = False, q_userAvatar = False,
           q_userAvatarSpan = False, q_faceplateUserDrawer = False, q_userMenuTrigger = False,
           q_createButton = False, q_karma = False, q_loginUsername = True,
           q_loginForm = True\<rparr>"
  "retryDom stuckEnv tr = \<lparr>r_expandUserDrawerButton = False, r_userAvatar = False,
         r_userAvatarSpan = False, r_faceplateUserDrawer = False, r_loginUsername = True,
         r_href = js ''https://www.reddit.com/login'', r_userTestid = False,
         r_createButton = False\<rparr>"
  by (simp_all add: stuckEnv_def fixtureEnv_def)

section \<open>Login verification\<close>



text \<open>
  C5. When the address does not indicate success, the inspection of the page does not
  either, and the retry with the reduced indicators comes back false, no call having
  failed, \<open>verifyLoginSuccess\<close> returns true; it has waited once and retried once.
\<close>

theorem verifyLoginSuccess_inconclusive:
  assumes "tr1 = trace s @ [Invoke VerifyLoginSuccess, WaitForNavigation 10000]"
    and "tr2 = tr1 @ [Evaluate LoginIndicators, Sleep 3000]"
    and "\<not> urlIndicatesSuccess (urlOf e tr1)"
    and "rejects e tr1 (Evaluate LoginIndicators) = None"
    and "\<not> domLoginSuccess (loginDom e tr1)"
    and "rejects e tr2 (Evaluate RetryIndicators) = None"
    and "\<not> quickCheck (retryDom e tr2)"
  shows "verifyLoginSuccess e s = (Inr True, s\<lparr>trace := tr2 @ [Evaluate RetryIndicators]\<rparr>) \<and>
         length (filter (\<lambda>ev. ev = Evaluate RetryIndicators)
                   (newEvents s (snd (verifyLoginSuccess e s)))) = 1"
proof -
  have "verifyLoginSuccess e s = (Inr True, s\<lparr>trace := tr2 @ [Evaluate RetryIndicators]\<rparr>)"
    using assms by (simp add: verifyLoginSuccess_def io_defs split: option.splits)
  then show ?thesis
    using assms(1,2) by (simp add: newEvents_def)
qed

theorem verifyLoginSuccess_inconclusive_witness:
  "\<not> urlIndicatesSuccess (urlOf stuckEnv [Invoke VerifyLoginSuccess, WaitForNavigation 10000]) \<and>
   \<not> domLoginSuccess (loginDom stuckEnv [Invoke VerifyLoginSuccess, WaitForNavigation 10000]) \<and>
   \<not> quickCheck (retryDom stuckEnv [Invoke VerifyLoginSuccess, WaitForNavigation 10000,
                                     Evaluate LoginIndicators, Sleep 3000]) \<and>
   verifyLoginSuccess stuckEnv emptyState =
     (Inr True, emptyState\<lparr>trace := [Invoke VerifyLoginSuccess, WaitForNavigation 10000,
        Evaluate LoginIndicators, Sleep 3000, Evaluate RetryIndicators]\<rparr>)"
  using verifyLoginSuccess_inconclusive
    [of "[Invoke VerifyLoginSuccess, WaitForNavigation 10000]" emptyState
        "[Invoke VerifyLoginSuccess, WaitForNavigation 10000, Evaluate LoginIndicators, Sleep 3000]"
        stuckEnv]
  by (simp add: emptyState_def urlIndicatesSuccess_def login_url_facts domLoginSuccess_def
      quickCheck_def)

section \<open>Delivering to one target\<close>

lemma openChat_stops:
  assumes "rejects e (trace s) (Goto (js ''https://www.reddit.com/user/'' @ u)) = None"
    and "rejects e (trace s @ [Goto (js ''https://www.reddit.com/user/'' @ u)])
           (Evaluate ReadUserStatus) = None"
    and "classifyUser (profileText e (trace s @ [Goto (js ''https://www.reddit.com/user/'' @ u)]))
         = st"
    and "st \<noteq> exists_user"
  shows "openChat e u s =
         (Inl (UserUnavailable u st),
          s\<lparr>trace := trace s @ [Goto (js ''https://www.reddit.com/user/'' @ u),
                                Evaluate ReadUserStatus]\<rparr>)"
  using assms by (simp add: openChat_def io_defs)

lemma openChat_goto_rejected:
  assumes "rejects e (trace s) (Goto (js ''https://www.reddit.com/user/'' @ u)) = Some x"
  shows "openChat e u s =
         (Inl (External x), s\<lparr>trace := trace s @ [Goto (js ''https://www.reddit.com/user/'' @ u)]\<rparr>)"
  using assms by (simp add: openChat_def io_defs)

lemma openChat_status_rejected:
  assumes "rejects e (trace s) (Goto (js ''https://www.reddit.com/user/'' @ u)) = None"
    and "rejects e (trace s @ [Goto (js ''https://www.reddit.com/user/'' @ u)])
           (Evaluate ReadUserStatus) = Some x"
  shows "openChat e u s =
         (Inl (External x),
          s\<lparr>trace := trace s @ [Goto (js ''https://www.reddit.com/user/'' @ u),
                                Evaluate ReadUserStatus]\<rparr>)"
  using assms by (simp add: openChat_def io_defs)

lemma sendMessageToUser_openChat_fails:
  assumes "openChat e u (s\<lparr>trace := trace s @ [Invoke (SendMessageToUser u)]\<rparr>) = (Inl err, s1)"
  shows "sendMessageToUser e u m s = (Inl err, s1)"
  using assms by (simp add: sendMessageToUser_def io_defs)


lemma js_append: "js (a @ b) = js a @ js b"
  by (simp add: js_def)

text \<open>
  C3. When the profile page opens and can be read and its text classifies the target as
  not found or suspended, \<open>sendMessageToUser\<close> fails with an error naming the target and
  the reason right after the classification, and \<open>extractChatUrl\<close> was not entered.
  Whatever the environment does, \<open>extractChatUrl\<close> is entered only after the page was
  opened, read and classified as existing.
\<close>

theorem sendMessageToUser_unavailable:
  assumes "url = js ''https://www.reddit.com/user/'' @ u"
    and "tr = trace s @ [Invoke (SendMessageToUser u), Goto url]"
    and "st = classifyUser (profileText e tr)"
  shows "(rejects e (trace s @ [Invoke (SendMessageToUser u)]) (Goto url) = None \<and>
          rejects e tr (Evaluate ReadUserStatus) = None \<and> st \<noteq> exists_user \<longrightarrow>
            sendMessageToUser e u m s =
              (Inl (UserUnavailable u st), s\<lparr>trace := tr @ [Evaluate ReadUserStatus]\<rparr>) \<and>
            Invoke ExtractChatUrl \<notin> set (newEvents s (snd (sendMessageToUser e u m s)))) \<and>
         (Invoke ExtractChatUrl \<in> set (newEvents s (snd (sendMessageToUser e u m s))) \<longrightarrow>
            rejects e (trace s @ [Invoke (SendMessageToUser u)]) (Goto url) = None \<and>
            rejects e tr (Evaluate ReadUserStatus) = None \<and> st = exists_user) \<and>
         message (UserUnavailable u not_found) = js ''User '' @ u @ js '' not found'' \<and>
         message (UserUnavailable u suspended) = js ''User '' @ u @ js '' account suspended''"
proof -
  let ?s0 = "s\<lparr>trace := trace s @ [Invoke (SendMessageToUser u)]\<rparr>"
  have stop: "sendMessageToUser e u m s =
              (Inl (UserUnavailable u st), s\<lparr>trace := tr @ [Evaluate ReadUserStatus]\<rparr>)"
    if "rejects e (trace s @ [Invoke (SendMessageToUser u)]) (Goto url) = None"
      and "rejects e tr (Evaluate ReadUserStatus) = None" and "st \<noteq> exists_user"
  proof -
    have "openChat e u ?s0 =
          (Inl (UserUnavailable u st),
           ?s0\<lparr>trace := trace ?s0 @ [Goto (js ''https://www.reddit.com/user/'' @ u),
                                Evaluate ReadUserStatus]\<rparr>)"
      by (rule openChat_stops) (use that assms in simp_all)
    from sendMessageToUser_openChat_fails[OF this] show ?thesis
      using assms by simp
  qed
  have reached: "rejects e (trace s @ [Invoke (SendMessageToUser u)]) (Goto url) = None \<and>
            rejects e tr (Evaluate ReadUserStatus) = None \<and> st = exists_user"
    if ex: "Invoke ExtractChatUrl \<in> set (newEvents s (snd (sendMessageToUser e u m s)))"
  proof (cases "rejects e (trace s @ [Invoke (SendMessageToUser u)]) (Goto url)")
    case (Some x)
    have "openChat e u ?s0 =
          (Inl (External x), ?s0\<lparr>trace := trace ?s0 @ [Goto (js ''https://www.reddit.com/user/'' @ u)]\<rparr>)"
      by (rule openChat_goto_rejected) (use Some assms in simp)
    from sendMessageToUser_openChat_fails[OF this] ex show ?thesis
      by (simp add: newEvents_def)
  next
    case None
    show ?thesis
    proof (cases "rejects e tr (Evaluate ReadUserStatus)")
      case (Some x)
      have "openChat e u ?s0 =
          (Inl (External x), ?s0\<lparr>trace := trace ?s0 @ [Goto (js ''https://www.reddit.com/user/'' @ u),
                                Evaluate ReadUserStatus]\<rparr>)"
        by (rule openChat_status_rejected) (use None Some assms in simp_all)
      from sendMessageToUser_openChat_fails[OF this] ex show ?thesis
        by (simp add: newEvents_def)
    next
      case read: None
      show ?thesis
      proof (cases "st = exists_user")
        case True
        with None read show ?thesis by simp
      next
        case False
        from stop[OF None read False] ex assms(2) show ?thesis
          by (simp add: newEvents_def)
      qed
    qed
  qed
  have msg: "message (UserUnavailable u not_found) = js ''User '' @ u @ js '' not found''"
    "message (UserUnavailable u suspended) = js ''User '' @ u @ js '' account suspended''"
    by (simp_all add: js_append[symmetric])
  have early: "rejects e (trace s @ [Invoke (SendMessageToUser u)]) (Goto url) = None \<and>
          rejects e tr (Evaluate ReadUserStatus) = None \<and> st \<noteq> exists_user \<longrightarrow>
            sendMessageToUser e u m s =
              (Inl (UserUnavailable u st), s\<lparr>trace := tr @ [Evaluate ReadUserStatus]\<rparr>) \<and>
            Invoke ExtractChatUrl \<notin> set (newEvents s (snd (sendMessageToUser e u m s)))"
    using stop assms(2) by (simp add: newEvents_def)
  show ?thesis
    using early reached msg by blast
qed

lemma fixture_profile:
  "profileText fixtureEnv tr =
     (if last tr = Goto (js ''https://www.reddit.com/user/B'')
      then js ''Sorry, nobody on Reddit goes by that name'' else js ''u/'')"
  by (simp add: fixtureEnv_def)

lemma profile_facts:
  "classifyUser (js ''u/'') = exists_user"
  "classifyUser (js ''Sorry, nobody on Reddit goes by that name'') = not_found"
  "js ''https://www.reddit.com/user/'' @ js ''A'' \<noteq> js ''https://www.reddit.com/user/B''"
  "js ''https://www.reddit.com/user/'' @ js ''C'' \<noteq> js ''https://www.reddit.com/user/B''"
  "js ''https://www.reddit.com/user/'' @ js ''B'' = js ''https://www.reddit.com/user/B''"
  "js ''https://chat.reddit.com/user/x'' \<noteq> []"
  by code_simp+

theorem sendMessageToUser_unavailable_witness:
  "rejects fixtureEnv [Invoke (SendMessageToUser (js ''B''))]
      (Goto (js ''https://www.reddit.com/user/'' @ js ''B'')) = None \<and>
   classifyUser (profileText fixtureEnv
      [Invoke (SendMessageToUser (js ''B'')), Goto (js ''https://www.reddit.com/user/'' @ js ''B'')])
     = not_found \<and>
   sendMessageToUser fixtureEnv (js ''B'') (js ''hello'') emptyState =
     (Inl (UserUnavailable (js ''B'') not_found),
      emptyState\<lparr>trace := [Invoke (SendMessageToUser (js ''B'')),
                            Goto (js ''https://www.reddit.com/user/'' @ js ''B''),
                            Evaluate ReadUserStatus]\<rparr>) \<and>
   Invoke ExtractChatUrl \<notin>
     set (newEvents emptyState
            (snd (sendMessageToUser fixtureEnv (js ''B'') (js ''hello'') emptyState)))"
  using sendMessageToUser_unavailable
    [of "js ''https://www.reddit.com/user/'' @ js ''B''" "js ''B''"
        "[Invoke (SendMessageToUser (js ''B'')), Goto (js ''https://www.reddit.com/user/'' @ js ''B'')]"
        emptyState not_found fixtureEnv "js ''hello''"]
  by (simp add: emptyState_def fixture_profile profile_facts newEvents_def)




lemma batchLoop_records_success:
  assumes "i < length users" and "sendMessageToUser e (users ! i) m s = (Inr ok, s1)"
  shows "\<exists>res'. fst (batchLoop e users m d i res s) = Inr res' \<and>
                prefix (success res @ [users ! i]) (success res')"
proof -
  let ?s2 = "if i + 1 < length users then s1\<lparr>trace := trace s1 @ [PacingDelay d]\<rparr> else s1"
  let ?res1 = "res\<lparr>success := success res @ [users ! i]\<rparr>"
  from batchLoop_runs[of e users m d "i + 1" ?res1 ?s2] obtain res' evs where
    "batchLoop e users m d (i + 1) ?res1 ?s2 = (Inr res', ?s2\<lparr>trace := trace ?s2 @ evs\<rparr>)"
    "prefix (success ?res1) (success res')" by blast
  then show ?thesis
    unfolding batchLoop_success_step[OF assms] by auto
qed

lemma batchLoop_records_failure:
  assumes "i < length users" and "sendMessageToUser e (users ! i) m s = (Inl err, s1)"
  shows "\<exists>res'. fst (batchLoop e users m d i res s) = Inr res' \<and>
           prefix (failed res @
              [\<lparr>user = users ! i, error = message err, timestamp = clock e (trace s1)\<rparr>])
             (failed res')"
proof -
  let ?s2 = "if i + 1 < length users then s1\<lparr>trace := trace s1 @ [PacingDelay d]\<rparr> else s1"
  let ?res1 = "res\<lparr>failed := failed res @
              [\<lparr>user = users ! i, error = message err, timestamp = clock e (trace s1)\<rparr>]\<rparr>"
  from batchLoop_runs[of e users m d "i + 1" ?res1 ?s2] obtain res' evs where
    "batchLoop e users m d (i + 1) ?res1 ?s2 = (Inr res', ?s2\<lparr>trace := trace ?s2 @ evs\<rparr>)"
    "prefix (failed ?res1) (failed res')" by blast
  then show ?thesis
    unfolding batchLoop_failure_step[OF assms] by auto
qed


section \<open>Runs in the concrete environment\<close>

lemma fixture_openChat:
  assumes "js ''https://www.reddit.com/user/'' @ u \<noteq> js ''https://www.reddit.com/user/B''"
  shows "openChat fixtureEnv u s =
     (Inr (), s\<lparr>trace := trace s @
        [Goto (js ''https://www.reddit.com/user/'' @ u), Evaluate ReadUserStatus,
         Invoke ExtractChatUrl, WaitForSelector (js ''button, a''), Evaluate FindChatUrl,
         Goto (js ''https://chat.reddit.com/user/x''), Sleep 3000]\<rparr>)"
  using assms
  by (simp add: openChat_def extractChatUrl_def io_defs fixture_profile profile_facts
      chat_url_facts)

lemma compose_ok:
  assumes "\<And>tr ev. rejects e tr ev = None" and "\<And>tr ev. answers e tr ev"
  shows "composeAndSubmit e m s =
     (Inr (), s\<lparr>trace := trace s @
        [WaitForSelector (js ''rs-message-composer''), Sleep 2000, Evaluate (TypeMessage m),
         Sleep 1000, Evaluate ClickSend, Sleep 2000]\<rparr>)"
  by (simp add: composeAndSubmit_def io_defs assms)

lemma fixture_composeAndSubmit:
  "composeAndSubmit fixtureEnv m s =
     (Inr (), s\<lparr>trace := trace s @
        [WaitForSelector (js ''rs-message-composer''), Sleep 2000, Evaluate (TypeMessage m),
         Sleep 1000, Evaluate ClickSend, Sleep 2000]\<rparr>)"
  by (simp add: compose_ok)

lemma failing_fields [simp]:
  "rejects failingChatEnv tr ev = None"
  "answers failingChatEnv tr ev = True"
  "deliveryDom failingChatEnv tr =
     \<lparr>bodyText = js ''Failed to send'', messageSentElement = False\<rparr>"
  by (simp_all add: failingChatEnv_def fixtureEnv_def)

lemma delivery_facts:
  "\<not> includesStr (js ''hi'') (js ''Failed to send'')"
  "\<not> includesStr (js ''hi'') (js ''Message failed'')"
  "\<not> includesStr (js ''hi'') (js ''Message sent'')"
  "includesStr (js ''Failed to send'') (js ''Failed to send'')"
  by code_simp+


section \<open>The challenge without a solver\<close>

lemma handleCaptcha_no_solver:
  assumes "rejects e (trace s @ [Invoke HandleCaptchaIfPresent]) (Evaluate DetectCaptcha) = None"
    and "captchaRequired (captchaDom e (trace s @ [Invoke HandleCaptchaIfPresent]))"
  shows "handleCaptchaIfPresent e None s =
         (Inl CaptchaNoSolver,
          s\<lparr>trace := trace s @ [Invoke HandleCaptchaIfPresent, Evaluate DetectCaptcha]\<rparr>)"
  using assms by (simp add: handleCaptchaIfPresent_def io_defs)

lemma loginToReddit_captcha_fails:
  assumes "submitCredentials e u p (s0\<lparr>trace := trace s0 @ [Invoke LoginToReddit]\<rparr>) = (Inr (), s)"
    and "handleCaptchaIfPresent e (makeSolver key) s = (Inl err, s')"
  shows "loginToReddit e u p key s0 = (Inl err, s')"
  using assms by (simp add: loginToReddit_def Let_def io_defs)

lemma batch_login_fails:
  assumes rf: "call e (ReadFile f) (fileContents e) (sa\<lparr>browser := None\<rparr>) = (Inr usersData, s1)"
    and ib: "initBrowser e (JBool (opt_headless opts \<noteq> JBool False)) (opt_proxy opts) s1
             = (Inr b, s2)"
    and lg: "loginToReddit e u p (opt_captchaApiKey opts) (s2\<lparr>browser := Some b\<rparr>)
             = (Inl err, s3)"
  shows "(\<exists>err'. fst (processOptimizedBatch e u p f m opts sa) = Inl err') \<and>
         snd (processOptimizedBatch e u p f m opts sa) = s3\<lparr>trace := trace s3 @ [BrowserClose b]\<rparr> \<and>
         targetsInvoked (newEvents sa (snd (processOptimizedBatch e u p f m opts sa))) = []"
proof -
  have run: "processOptimizedBatch e u p f m opts sa = closing e b (Inl err) s3"
    unfolding batch_run_eq[OF rf ib] lg by simp
  have "emits quiet (call e (ReadFile f) (fileContents e))"
    by (intro emits_intros) simp
  from emitsD[OF this rf] obtain evs1 where
    1: "s1 = sa\<lparr>browser := None, trace := trace sa @ evs1\<rparr>" "list_all quiet evs1" by auto
  from emitsD[OF emits_initBrowser ib] obtain evs2 where
    2: "s2 = s1\<lparr>trace := trace s1 @ evs2\<rparr>" "list_all quiet evs2" by blast
  from emitsD[OF emits_loginToReddit lg] obtain evs3 where
    3: "s3 = s2\<lparr>browser := Some b, trace := trace s2 @ evs3\<rparr>" "list_all quiet evs3" by auto
  have tr: "trace s3 = trace sa @ evs1 @ evs2 @ evs3"
    using 1 2 3 by simp
  have "targetsInvoked (evs1 @ evs2 @ evs3 @ [BrowserClose b]) = []"
    using 1(2) 2(2) 3(2) by (simp add: targetsInvoked_append targetsInvoked_quiet)
  then have "targetsInvoked (newEvents sa (snd (closing e b (Inl err) s3))) = []"
    by (simp add: newEvents_def closing_trace tr)
  moreover have "snd (closing e b (Inl err) s3) = s3\<lparr>trace := trace s3 @ [BrowserClose b]\<rparr>"
    by (simp add: closing_def split: option.splits)
  ultimately show ?thesis
    unfolding run using closing_Inl[of e b err s3] by simp
qed

lemma messenger_login_fails:
  assumes ib: "initBrowser e (o_headless (mergeConfig DEFAULT_CONFIG cfg))
                 (o_proxy (mergeConfig DEFAULT_CONFIG cfg)) (sa\<lparr>browser := None\<rparr>) = (Inr b, s1)"
    and lg: "loginToReddit e u p (o_captchaApiKey (mergeConfig DEFAULT_CONFIG cfg))
               (s1\<lparr>browser := Some b\<rparr>) = (Inl err, s2)"
  shows "(\<exists>err'. fst (redditMessenger e u p t m cfg sa) = Inl err') \<and>
         targetsInvoked (newEvents sa (snd (redditMessenger e u p t m cfg sa))) = []"
proof -
  let ?o = "mergeConfig DEFAULT_CONFIG cfg"
  let ?rest = "thenM (loginToReddit e u p (o_captchaApiKey ?o))
         (thenM (sendMessageToUser e t m)
         (bindM (now e) (\<lambda>iso.
          thenM (saveResults e
                   (SingleResult [t] m iso (o_headless ?o)
                      (truthy (o_proxy ?o)))
                   (js ''single-message''))
         (returnM True))))"
  let ?handler = "\<lambda>err.
          bindM (now e) (\<lambda>iso.
          thenM (saveResults e
                   (SingleFailure
                      [\<lparr>user = t, error = message err, timestamp = iso\<rparr>]
                      (o_headless ?o) (truthy (o_proxy ?o)))
                   (js ''failed-message''))
         (throwM err))"
  let ?body = "tryCatch
         (bindM (initBrowser e (o_headless ?o) (o_proxy ?o)) (\<lambda>b.
          thenM (setBrowser (Some b)) ?rest))
         ?handler"
  let ?failure = "SingleFailure
                      [\<lparr>user = t, error = message err, timestamp = clock e (trace s2)\<rparr>]
                      (o_headless ?o) (truthy (o_proxy ?o))"
  have run: "redditMessenger e u p t m cfg sa = tryFinally ?body (closeBrowser e) (sa\<lparr>browser := None\<rparr>)"
    by (simp add: redditMessenger_def Let_def thenM_def bindM_def setBrowser_def)
  obtain r3 s3 where sv: "saveResults e ?failure (js ''failed-message'') s2 = (r3, s3)"
    by (cases "saveResults e ?failure (js ''failed-message'') s2")
  from emitsD[OF emits_initBrowser ib] obtain evs1 where
    1: "s1 = sa\<lparr>browser := None, trace := trace sa @ evs1\<rparr>" "list_all quiet evs1" by auto
  from emitsD[OF emits_loginToReddit lg] obtain evs2 where
    2: "s2 = s1\<lparr>browser := Some b, trace := trace s1 @ evs2\<rparr>" "list_all quiet evs2" by auto
  from emitsD[OF emits_saveResults sv] obtain evs3 where
    3: "s3 = s2\<lparr>trace := trace s2 @ evs3\<rparr>" "list_all quiet evs3" by blast
  have b3: "browser s3 = Some b" using 2 3 by simp
  have "\<exists>err'. ?body (sa\<lparr>browser := None\<rparr>) = (Inl err', s3)"
    using ib lg sv
    by (cases r3) (simp_all add: tryCatch_def bindM_def thenM_def setBrowser_def now_def throwM_def)
  then obtain err' where "?body (sa\<lparr>browser := None\<rparr>) = (Inl err', s3)" by blast
  from finally_close[of ?body "sa\<lparr>browser := None\<rparr>", OF this b3] run
  have fin: "redditMessenger e u p t m cfg sa = closing e b (Inl err') s3" by simp
  have tr: "trace s3 = trace sa @ evs1 @ evs2 @ evs3"
    using 1 2 3 by simp
  have "targetsInvoked (evs1 @ evs2 @ evs3 @ [BrowserClose b]) = []"
    using 1(2) 2(2) 3(2) by (simp add: targetsInvoked_append targetsInvoked_quiet)
  then have "targetsInvoked (newEvents sa (snd (closing e b (Inl err') s3))) = []"
    by (simp add: newEvents_def closing_trace tr)
  then show ?thesis
    unfolding fin using closing_Inl[of e b err' s3] by simp
qed

text \<open>
  C4. When the detection in \<open>handleCaptchaIfPresent\<close> can read the page and reports a
  visible, active challenge, and there is no solver, the function throws the error
  \<open>CAPTCHA challenge detected but no 2Captcha API key configured\<close> right after the
  detection: the site key is not read, the solving service is not called, nothing is
  sent again. \<open>loginToReddit\<close> called with a falsy key rethrows this error as it is, and
  the run it belongs to fails without having entered \<open>sendMessageToUser\<close> for any
  target: the batch run, which closes the browser right after the detection, and the
  single-message run.
\<close>

theorem captcha_without_solver:
  assumes "tr = trace s @ [Invoke HandleCaptchaIfPresent]"
    and "rejects e tr (Evaluate DetectCaptcha) = None"
    and "captchaRequired (captchaDom e tr)"
  shows "handleCaptchaIfPresent e None s =
           (Inl CaptchaNoSolver, s\<lparr>trace := tr @ [Evaluate DetectCaptcha]\<rparr>) \<and>
         message CaptchaNoSolver =
           js ''CAPTCHA challenge detected but no 2Captcha API key configured'' \<and>
         (\<forall>s0 u p key.
            \<not> truthy key \<and>
            submitCredentials e u p (s0\<lparr>trace := trace s0 @ [Invoke LoginToReddit]\<rparr>)
              = (Inr (), s) \<longrightarrow>
            loginToReddit e u p key s0 =
              (Inl CaptchaNoSolver, s\<lparr>trace := tr @ [Evaluate DetectCaptcha]\<rparr>)) \<and>
         (\<forall>sa f usersData s1 b s2 opts u p m.
            call e (ReadFile f) (fileContents e) (sa\<lparr>browser := None\<rparr>) = (Inr usersData, s1) \<and>
            initBrowser e (JBool (opt_headless opts \<noteq> JBool False)) (opt_proxy opts) s1
              = (Inr b, s2) \<and>
            \<not> truthy (opt_captchaApiKey opts) \<and>
            submitCredentials e u p
              (s2\<lparr>browser := Some b, trace := trace s2 @ [Invoke LoginToReddit]\<rparr>)
              = (Inr (), s) \<longrightarrow>
            (\<exists>err. fst (processOptimizedBatch e u p f m opts sa) = Inl err) \<and>
            snd (processOptimizedBatch e u p f m opts sa) =
              s\<lparr>trace := tr @ [Evaluate DetectCaptcha, BrowserClose b]\<rparr> \<and>
            targetsInvoked (newEvents sa (snd (processOptimizedBatch e u p f m opts sa))) = []) \<and>
         (\<forall>sa cfg b s2 u p t m.
            initBrowser e (o_headless (mergeConfig DEFAULT_CONFIG cfg))
              (o_proxy (mergeConfig DEFAULT_CONFIG cfg)) (sa\<lparr>browser := None\<rparr>) = (Inr b, s2) \<and>
            \<not> truthy (o_captchaApiKey (mergeConfig DEFAULT_CONFIG cfg)) \<and>
            submitCredentials e u p
              (s2\<lparr>browser := Some b, trace := trace s2 @ [Invoke LoginToReddit]\<rparr>)
              = (Inr (), s) \<longrightarrow>
            (\<exists>err. fst (redditMessenger e u p t m cfg sa) = Inl err) \<and>
            targetsInvoked (newEvents sa (snd (redditMessenger e u p t m cfg sa))) = [])"
proof -
  have stop: "handleCaptchaIfPresent e None s =
           (Inl CaptchaNoSolver, s\<lparr>trace := tr @ [Evaluate DetectCaptcha]\<rparr>)"
    using handleCaptcha_no_solver[of e s] assms by simp
  have login: "loginToReddit e u p key s0 =
              (Inl CaptchaNoSolver, s\<lparr>trace := tr @ [Evaluate DetectCaptcha]\<rparr>)"
    if "\<not> truthy key"
      and "submitCredentials e u p (s0\<lparr>trace := trace s0 @ [Invoke LoginToReddit]\<rparr>) = (Inr (), s)"
    for s0 u p key
  proof -
    have "makeSolver key = None" using that(1) by (simp add: makeSolver_def)
    with loginToReddit_captcha_fails[OF that(2), of key] stop show ?thesis by simp
  qed
  have batch: "(\<exists>err. fst (processOptimizedBatch e u p f m opts sa) = Inl err) \<and>
            snd (processOptimizedBatch e u p f m opts sa) =
              s\<lparr>trace := tr @ [Evaluate DetectCaptcha, BrowserClose b]\<rparr> \<and>
            targetsInvoked (newEvents sa (snd (processOptimizedBatch e u p f m opts sa))) = []"
    if rf: "call e (ReadFile f) (fileContents e) (sa\<lparr>browser := None\<rparr>) = (Inr usersData, s1)"
      and ib: "initBrowser e (JBool (opt_headless opts \<noteq> JBool False)) (opt_proxy opts) s1
              = (Inr b, s2)"
      and key: "\<not> truthy (opt_captchaApiKey opts)"
      and sub: "submitCredentials e u p
              (s2\<lparr>browser := Some b, trace := trace s2 @ [Invoke LoginToReddit]\<rparr>)
              = (Inr (), s)"
    for sa f usersData s1 b s2 opts u p m
  proof -
    have "submitCredentials e u p
            ((s2\<lparr>browser := Some b\<rparr>)\<lparr>trace := trace (s2\<lparr>browser := Some b\<rparr>) @ [Invoke LoginToReddit]\<rparr>)
          = (Inr (), s)"
      using sub by simp
    from login[OF key this]
    have lg: "loginToReddit e u p (opt_captchaApiKey opts) (s2\<lparr>browser := Some b\<rparr>) =
              (Inl CaptchaNoSolver, s\<lparr>trace := tr @ [Evaluate DetectCaptcha]\<rparr>)" .
    note r = batch_login_fails[OF rf ib lg, of m]
    have "snd (processOptimizedBatch e u p f m opts sa) =
              s\<lparr>trace := tr @ [Evaluate DetectCaptcha, BrowserClose b]\<rparr>"
      using r by simp
    with r show ?thesis by blast
  qed
  have single: "(\<exists>err. fst (redditMessenger e u p t m cfg sa) = Inl err) \<and>
            targetsInvoked (newEvents sa (snd (redditMessenger e u p t m cfg sa))) = []"
    if ib: "initBrowser e (o_headless (mergeConfig DEFAULT_CONFIG cfg))
              (o_proxy (mergeConfig DEFAULT_CONFIG cfg)) (sa\<lparr>browser := None\<rparr>) = (Inr b, s2)"
      and key: "\<not> truthy (o_captchaApiKey (mergeConfig DEFAULT_CONFIG cfg))"
      and sub: "submitCredentials e u p
              (s2\<lparr>browser := Some b, trace := trace s2 @ [Invoke LoginToReddit]\<rparr>)
              = (Inr (), s)"
    for sa cfg b s2 u p t m
  proof -
    have "submitCredentials e u p
            ((s2\<lparr>browser := Some b\<rparr>)\<lparr>trace := trace (s2\<lparr>browser := Some b\<rparr>) @ [Invoke LoginToReddit]\<rparr>)
          = (Inr (), s)"
      using sub by simp
    from login[OF key this]
    have lg: "loginToReddit e u p (o_captchaApiKey (mergeConfig DEFAULT_CONFIG cfg))
                (s2\<lparr>browser := Some b\<rparr>) =
              (Inl CaptchaNoSolver, s\<lparr>trace := tr @ [Evaluate DetectCaptcha]\<rparr>)" .
    from messenger_login_fails[OF ib lg] show ?thesis .
  qed
  have msg: "message CaptchaNoSolver =
           js ''CAPTCHA challenge detected but no 2Captcha API key configured''" by simp
  have all_login: "\<forall>s0 u p key.
            \<not> truthy key \<and>
            submitCredentials e u p (s0\<lparr>trace := trace s0 @ [Invoke LoginToReddit]\<rparr>)
              = (Inr (), s) \<longrightarrow>
            loginToReddit e u p key s0 =
              (Inl CaptchaNoSolver, s\<lparr>trace := tr @ [Evaluate DetectCaptcha]\<rparr>)"
    using login by blast
  have all_batch: "\<forall>sa f usersData s1 b s2 opts u p m.
            call e (ReadFile f) (fileContents e) (sa\<lparr>browser := None\<rparr>) = (Inr usersData, s1) \<and>
            initBrowser e (JBool (opt_headless opts \<noteq> JBool False)) (opt_proxy opts) s1
              = (Inr b, s2) \<and>
            \<not> truthy (opt_captchaApiKey opts) \<and>
            submitCredentials e u p
              (s2\<lparr>browser := Some b, trace := trace s2 @ [Invoke LoginToReddit]\<rparr>)
              = (Inr (), s) \<longrightarrow>
            (\<exists>err. fst (processOptimizedBatch e u p f m opts sa) = Inl err) \<and>
            snd (processOptimizedBatch e u p f m opts sa) =
              s\<lparr>trace := tr @ [Evaluate DetectCaptcha, BrowserClose b]\<rparr> \<and>
            targetsInvoked (newEvents sa (snd (processOptimizedBatch e u p f m opts sa))) = []"
    using batch by blast
  have all_single: "\<forall>sa cfg b s2 u p t m.
            initBrowser e (o_headless (mergeConfig DEFAULT_CONFIG cfg))
              (o_proxy (mergeConfig DEFAULT_CONFIG cfg)) (sa\<lparr>browser := None\<rparr>) = (Inr b, s2) \<and>
            \<not> truthy (o_captchaApiKey (mergeConfig DEFAULT_CONFIG cfg)) \<and>
            submitCredentials e u p
              (s2\<lparr>browser := Some b, trace := trace s2 @ [Invoke LoginToReddit]\<rparr>)
              = (Inr (), s) \<longrightarrow>
            (\<exists>err. fst (redditMessenger e u p t m cfg sa) = Inl err) \<and>
            targetsInvoked (newEvents sa (snd (redditMessenger e u p t m cfg sa))) = []"
    using single by blast
  show ?thesis
    by (intro conjI; fact stop msg all_login all_batch all_single)
qed

lemma init_ok:
  assumes "\<And>tr ev. rejects e tr ev = None"
  shows "initBrowser e h p s =
     (Inr (browserHandle e (trace s @ [Invoke InitBrowser])),
      s\<lparr>trace := trace s @
         [Invoke InitBrowser, Launch h (if truthy p then Some p else None), NewPage,
          SetViewport 1366 768, SetUserAgent userAgent]\<rparr>)"
  by (simp add: initBrowser_def io_defs assms)

lemma submit_ok:
  assumes "\<And>tr ev. rejects e tr ev = None" and "\<And>tr ev. answers e tr ev"
  shows "submitCredentials e u p s =
     (Inr (), s\<lparr>trace := trace s @
        [Goto (js ''https://www.reddit.com/login''),
         WaitForSelector (js ''faceplate-text-input#login-username''),
         WaitForSelector (js ''faceplate-text-input#login-password''),
         Evaluate (FillUsername u), Evaluate (FillPassword p), Evaluate ClickLoginForm,
         Sleep 5000]\<rparr>)"
  by (simp add: submitCredentials_def io_defs assms)

lemma readFile_ok:
  assumes "\<And>tr ev. rejects e tr ev = None"
  shows "call e (ReadFile f) (fileContents e) s =
         (Inr (fileContents e (trace s)), s\<lparr>trace := trace s @ [ReadFile f]\<rparr>)"
  by (simp add: call_def assms)

lemma captcha_fields [simp]:
  "rejects captchaEnv tr ev = None"
  "answers captchaEnv tr ev = True"
  "browserHandle captchaEnv tr = 7"
  "fileContents captchaEnv tr = fixtureFile"
  "sitekeyFound captchaEnv tr = None"
  "captchaDom captchaEnv tr =
     \<lparr>recaptchaIframe = Some \<lparr>width = 300, height = 80, display = js ''block'',
                                  visibility = js ''visible''\<rparr>,
      captchaContainer = None, gRecaptchaShown = True\<rparr>"
  by (simp_all add: captchaEnv_def fixtureEnv_def)

lemma captcha_shown:
  "captchaRequired \<lparr>recaptchaIframe = Some \<lparr>width = 300, height = 80, display = js ''block'',
                                  visibility = js ''visible''\<rparr>,
      captchaContainer = None, gRecaptchaShown = True\<rparr>"
  by code_simp

theorem captcha_without_solver_witness:
  "captchaRequired (captchaDom captchaEnv
     [Invoke LoginToReddit, Goto (js ''https://www.reddit.com/login''),
      WaitForSelector (js ''faceplate-text-input#login-username''),
      WaitForSelector (js ''faceplate-text-input#login-password''),
      Evaluate (FillUsername (js ''u'')), Evaluate (FillPassword (js ''p'')),
      Evaluate ClickLoginForm, Sleep 5000, Invoke HandleCaptchaIfPresent]) \<and>
   \<not> truthy JUndefined \<and>
   loginToReddit captchaEnv (js ''u'') (js ''p'') JUndefined emptyState =
     (Inl CaptchaNoSolver,
      \<lparr>trace = [Invoke LoginToReddit, Goto (js ''https://www.reddit.com/login''),
         WaitForSelector (js ''faceplate-text-input#login-username''),
         WaitForSelector (js ''faceplate-text-input#login-password''),
         Evaluate (FillUsername (js ''u'')), Evaluate (FillPassword (js ''p'')),
         Evaluate ClickLoginForm, Sleep 5000, Invoke HandleCaptchaIfPresent,
         Evaluate DetectCaptcha], browser = None\<rparr>) \<and>
   \<not> truthy (opt_captchaApiKey fixtureOptions) \<and>
   (\<exists>err. fst (processOptimizedBatch captchaEnv (js ''u'') (js ''p'') (js ''f'') (js ''hello'')
                 fixtureOptions emptyState) = Inl err) \<and>
   targetsInvoked (newEvents emptyState
     (snd (processOptimizedBatch captchaEnv (js ''u'') (js ''p'') (js ''f'') (js ''hello'')
             fixtureOptions emptyState))) = []"
proof -
  let ?s = "\<lparr>trace = [Invoke LoginToReddit, Goto (js ''https://www.reddit.com/login''),
      WaitForSelector (js ''faceplate-text-input#login-username''),
      WaitForSelector (js ''faceplate-text-input#login-password''),
      Evaluate (FillUsername (js ''u'')), Evaluate (FillPassword (js ''p'')),
      Evaluate ClickLoginForm, Sleep 5000], browser = None\<rparr>"
  have sub: "submitCredentials captchaEnv (js ''u'') (js ''p'')
          (emptyState\<lparr>trace := trace emptyState @ [Invoke LoginToReddit]\<rparr>) = (Inr (), ?s)"
    by (simp add: submit_ok emptyState_def)
  from captcha_without_solver[of "trace ?s @ [Invoke HandleCaptchaIfPresent]" ?s captchaEnv]
  have "\<forall>s0 u p key.
            \<not> truthy key \<and>
            submitCredentials captchaEnv u p (s0\<lparr>trace := trace s0 @ [Invoke LoginToReddit]\<rparr>)
              = (Inr (), ?s) \<longrightarrow>
            loginToReddit captchaEnv u p key s0 =
              (Inl CaptchaNoSolver,
               ?s\<lparr>trace := (trace ?s @ [Invoke HandleCaptchaIfPresent]) @ [Evaluate DetectCaptcha]\<rparr>)"
    by (simp add: captcha_shown)
  with sub have "loginToReddit captchaEnv (js ''u'') (js ''p'') JUndefined emptyState =
              (Inl CaptchaNoSolver,
               ?s\<lparr>trace := (trace ?s @ [Invoke HandleCaptchaIfPresent]) @ [Evaluate DetectCaptcha]\<rparr>)"
    by simp
  then have first: "loginToReddit captchaEnv (js ''u'') (js ''p'') JUndefined emptyState =
     (Inl CaptchaNoSolver,
      \<lparr>trace = [Invoke LoginToReddit, Goto (js ''https://www.reddit.com/login''),
         WaitForSelector (js ''faceplate-text-input#login-username''),
         WaitForSelector (js ''faceplate-text-input#login-password''),
         Evaluate (FillUsername (js ''u'')), Evaluate (FillPassword (js ''p'')),
         Evaluate ClickLoginForm, Sleep 5000, Invoke HandleCaptchaIfPresent,
         Evaluate DetectCaptcha], browser = None\<rparr>)"
    by simp
  let ?s1 = "emptyState\<lparr>browser := None, trace := [ReadFile (js ''f'')]\<rparr>"
  let ?s2 = "emptyState\<lparr>browser := None, trace :=
                [ReadFile (js ''f''), Invoke InitBrowser, Launch (JBool False) None, NewPage,
                 SetViewport 1366 768, SetUserAgent userAgent]\<rparr>"
  let ?sb = "\<lparr>trace = [ReadFile (js ''f''), Invoke InitBrowser, Launch (JBool False) None,
      NewPage, SetViewport 1366 768, SetUserAgent userAgent,
      Invoke LoginToReddit, Goto (js ''https://www.reddit.com/login''),
      WaitForSelector (js ''faceplate-text-input#login-username''),
      WaitForSelector (js ''faceplate-text-input#login-password''),
      Evaluate (FillUsername (js ''u'')), Evaluate (FillPassword (js ''p'')),
      Evaluate ClickLoginForm, Sleep 5000], browser = Some 7\<rparr>"
  have rf: "call captchaEnv (ReadFile (js ''f'')) (fileContents captchaEnv)
              (emptyState\<lparr>browser := None\<rparr>) = (Inr fixtureFile, ?s1)"
    by (simp add: readFile_ok emptyState_def)
  have ib: "initBrowser captchaEnv (JBool (opt_headless fixtureOptions \<noteq> JBool False))
               (opt_proxy fixtureOptions) ?s1 = (Inr 7, ?s2)"
    by (simp add: init_ok fixtureOptions_def emptyState_def)
  have key: "\<not> truthy (opt_captchaApiKey fixtureOptions)"
    by (simp add: fixtureOptions_def)
  have sub2: "submitCredentials captchaEnv (js ''u'') (js ''p'')
          (?s2\<lparr>browser := Some 7, trace := trace ?s2 @ [Invoke LoginToReddit]\<rparr>) = (Inr (), ?sb)"
    by (simp add: submit_ok emptyState_def)
  have shown: "captchaRequired (captchaDom captchaEnv (trace ?sb @ [Invoke HandleCaptchaIfPresent]))"
    by (simp add: captcha_shown)
  have read: "rejects captchaEnv (trace ?sb @ [Invoke HandleCaptchaIfPresent])
                (Evaluate DetectCaptcha) = None"
    by simp
  note captcha_without_solver[of "trace ?sb @ [Invoke HandleCaptchaIfPresent]" ?sb captchaEnv,
      OF refl read shown]
  with rf ib key sub2
  have second: "(\<exists>err. fst (processOptimizedBatch captchaEnv (js ''u'') (js ''p'') (js ''f'')
                   (js ''hello'') fixtureOptions emptyState) = Inl err) \<and>
      targetsInvoked (newEvents emptyState
        (snd (processOptimizedBatch captchaEnv (js ''u'') (js ''p'') (js ''f'') (js ''hello'')
             fixtureOptions emptyState))) = []"
    by blast
  from first second key show ?thesis by (simp add: captcha_shown)
qed

section \<open>The default key\<close>

lemma placeholder_truthy: "truthy (JStr (js ''YOUR_CAPTCHA_API_KEY_HERE''))"
  by (simp add: js_def)

lemma merged_key:
  "o_captchaApiKey (mergeConfig DEFAULT_CONFIG cfg) =
     (case cfg_captchaApiKey cfg of
        None \<Rightarrow> JStr (js ''YOUR_CAPTCHA_API_KEY_HERE'')
      | Some v \<Rightarrow> v)"
  by (simp add: mergeConfig_def DEFAULT_CONFIG_def split: option.splits)

lemma not_raised: "raises solved m \<Longrightarrow> fst (m s) \<noteq> Inl CaptchaNoSolver"
  unfolding raises_def by blast

text \<open>
  C10. When the configuration given to \<open>redditMessenger\<close> has no \<open>captchaApiKey\<close>, the
  merged options carry the placeholder \<open>YOUR_CAPTCHA_API_KEY_HERE\<close>, \<open>loginToReddit\<close>
  makes a solver from it, and neither \<open>loginToReddit\<close> nor the run ends with the error
  of the challenge without a solver. That error comes out of the login, or of the run,
  only when the configuration has the key with a falsy value.
\<close>

theorem default_key_makes_solver:
  "(cfg_captchaApiKey cfg = None \<longrightarrow>
      o_captchaApiKey (mergeConfig DEFAULT_CONFIG cfg) = JStr (js ''YOUR_CAPTCHA_API_KEY_HERE'') \<and>
      truthy (o_captchaApiKey (mergeConfig DEFAULT_CONFIG cfg)) \<and>
      makeSolver (o_captchaApiKey (mergeConfig DEFAULT_CONFIG cfg)) =
        Some (Solver (JStr (js ''YOUR_CAPTCHA_API_KEY_HERE''))) \<and>
      fst (loginToReddit e u p (o_captchaApiKey (mergeConfig DEFAULT_CONFIG cfg)) s)
        \<noteq> Inl CaptchaNoSolver \<and>
      fst (redditMessenger e u p t m cfg s') \<noteq> Inl CaptchaNoSolver) \<and>
   (fst (loginToReddit e u p (o_captchaApiKey (mergeConfig DEFAULT_CONFIG cfg)) s)
      = Inl CaptchaNoSolver \<longrightarrow>
    (\<exists>v. cfg_captchaApiKey cfg = Some v \<and> \<not> truthy v)) \<and>
   (fst (redditMessenger e u p t m cfg s') = Inl CaptchaNoSolver \<longrightarrow>
    (\<exists>v. cfg_captchaApiKey cfg = Some v \<and> \<not> truthy v))"
proof -
  let ?key = "o_captchaApiKey (mergeConfig DEFAULT_CONFIG cfg)"
  have safe: "fst (loginToReddit e u p ?key s) \<noteq> Inl CaptchaNoSolver \<and>
              fst (redditMessenger e u p t m cfg s') \<noteq> Inl CaptchaNoSolver"
    if "truthy ?key"
    using not_raised[OF raises_loginToReddit[OF that]] not_raised[OF raises_redditMessenger[OF that]]
    by blast
  have absent: "?key = JStr (js ''YOUR_CAPTCHA_API_KEY_HERE'') \<and> truthy ?key \<and>
      makeSolver ?key = Some (Solver (JStr (js ''YOUR_CAPTCHA_API_KEY_HERE'')))"
    if "cfg_captchaApiKey cfg = None"
    using that placeholder_truthy by (simp add: merged_key makeSolver_def)
  have falsy: "\<exists>v. cfg_captchaApiKey cfg = Some v \<and> \<not> truthy v" if "\<not> truthy ?key"
  proof (cases "cfg_captchaApiKey cfg")
    case None
    with absent that show ?thesis by blast
  next
    case (Some v)
    with that show ?thesis by (simp add: merged_key)
  qed
  from safe absent falsy show ?thesis by blast
qed

lemma captcha_login_with_solver:
  assumes "truthy key"
  shows "loginToReddit captchaEnv u p key s =
     (Inl SitekeyNotFound,
      s\<lparr>trace := trace s @
        [Invoke LoginToReddit, Goto (js ''https://www.reddit.com/login''),
         WaitForSelector (js ''faceplate-text-input#login-username''),
         WaitForSelector (js ''faceplate-text-input#login-password''),
         Evaluate (FillUsername u), Evaluate (FillPassword p), Evaluate ClickLoginForm,
         Sleep 5000, Invoke HandleCaptchaIfPresent, Evaluate DetectCaptcha,
         Evaluate ReadSitekey]\<rparr>)"
  using assms
  by (simp add: loginToReddit_def Let_def makeSolver_def submit_ok handleCaptchaIfPresent_def
      io_defs captcha_shown)

lemma captcha_login_without_solver:
  assumes "\<not> truthy key"
  shows "loginToReddit captchaEnv u p key s =
     (Inl CaptchaNoSolver,
      s\<lparr>trace := trace s @
        [Invoke LoginToReddit, Goto (js ''https://www.reddit.com/login''),
         WaitForSelector (js ''faceplate-text-input#login-username''),
         WaitForSelector (js ''faceplate-text-input#login-password''),
         Evaluate (FillUsername u), Evaluate (FillPassword p), Evaluate ClickLoginForm,
         Sleep 5000, Invoke HandleCaptchaIfPresent, Evaluate DetectCaptcha]\<rparr>)"
  using assms
  by (simp add: loginToReddit_def Let_def makeSolver_def submit_ok handleCaptchaIfPresent_def
      io_defs captcha_shown)

theorem default_key_makes_solver_witness:
  "cfg_captchaApiKey noConfig = None \<and>
   o_captchaApiKey (mergeConfig DEFAULT_CONFIG noConfig) = JStr (js ''YOUR_CAPTCHA_API_KEY_HERE'') \<and>
   fst (loginToReddit captchaEnv (js ''u'') (js ''p'')
          (o_captchaApiKey (mergeConfig DEFAULT_CONFIG noConfig)) emptyState)
     = Inl SitekeyNotFound \<and>
   fst (redditMessenger captchaEnv (js ''u'') (js ''p'') (js ''A'') (js ''hello'') noConfig
          emptyState) \<noteq> Inl CaptchaNoSolver \<and>
   fst (loginToReddit captchaEnv (js ''u'') (js ''p'')
          (o_captchaApiKey (mergeConfig DEFAULT_CONFIG (noConfig\<lparr>cfg_captchaApiKey := Some JNull\<rparr>)))
          emptyState)
     = Inl CaptchaNoSolver"
proof -
  have none: "cfg_captchaApiKey noConfig = None" by (simp add: noConfig_def)
  from default_key_makes_solver[of noConfig captchaEnv "js ''u''" "js ''p''" emptyState
      "js ''A''" "js ''hello''" emptyState] none
  have *: "o_captchaApiKey (mergeConfig DEFAULT_CONFIG noConfig) =
             JStr (js ''YOUR_CAPTCHA_API_KEY_HERE'')"
    "truthy (o_captchaApiKey (mergeConfig DEFAULT_CONFIG noConfig))"
    "fst (redditMessenger captchaEnv (js ''u'') (js ''p'') (js ''A'') (js ''hello'') noConfig
          emptyState) \<noteq> Inl CaptchaNoSolver"
    by blast+
  have "\<not> truthy (o_captchaApiKey (mergeConfig DEFAULT_CONFIG (noConfig\<lparr>cfg_captchaApiKey := Some JNull\<rparr>)))"
    by (simp add: merged_key)
  from captcha_login_without_solver[OF this] captcha_login_with_solver[OF *(2)] * none
  show ?thesis by simp
qed

section \<open>Closing the browser\<close>

text \<open>
  In both entry functions, once \<open>initBrowser\<close> has returned a browser to the run, the
  last thing the run does, however it ends, is to close that browser.
\<close>

lemma returned_browser_is_closed:
  "(\<forall>b s1.
      initBrowser e (o_headless (mergeConfig DEFAULT_CONFIG cfg))
        (o_proxy (mergeConfig DEFAULT_CONFIG cfg)) (s\<lparr>browser := None\<rparr>) = (Inr b, s1) \<longrightarrow>
      trace (snd (redditMessenger e u p t m cfg s)) \<noteq> [] \<and>
      last (trace (snd (redditMessenger e u p t m cfg s))) = BrowserClose b) \<and>
   (\<forall>usersData s1 b s2.
      call e (ReadFile f) (fileContents e) (s\<lparr>browser := None\<rparr>) = (Inr usersData, s1) \<and>
      initBrowser e (JBool (opt_headless opts \<noteq> JBool False)) (opt_proxy opts) s1
        = (Inr b, s2) \<longrightarrow>
      trace (snd (processOptimizedBatch e u p f m opts s)) \<noteq> [] \<and>
      last (trace (snd (processOptimizedBatch e u p f m opts s))) = BrowserClose b)"
proof (intro conjI allI impI)
  fix b s1
  assume "initBrowser e (o_headless (mergeConfig DEFAULT_CONFIG cfg))
        (o_proxy (mergeConfig DEFAULT_CONFIG cfg)) (s\<lparr>browser := None\<rparr>) = (Inr b, s1)"
  from messenger_run_closes[OF this, of u p t m] obtain r s' where
    run: "redditMessenger e u p t m cfg s = closing e b r s'" by blast
  show "trace (snd (redditMessenger e u p t m cfg s)) \<noteq> []"
    unfolding run by (simp add: closing_trace)
  show "last (trace (snd (redditMessenger e u p t m cfg s))) = BrowserClose b"
    unfolding run by (simp add: closing_trace)
next
  fix usersData s1 b s2
  assume a: "call e (ReadFile f) (fileContents e) (s\<lparr>browser := None\<rparr>) = (Inr usersData, s1) \<and>
      initBrowser e (JBool (opt_headless opts \<noteq> JBool False)) (opt_proxy opts) s1
        = (Inr b, s2)"
  then have "\<exists>r s'. processOptimizedBatch e u p f m opts s = closing e b r s'"
    by (auto simp add: batch_run_eq[of e f s usersData s1 opts b s2]
        split: prod.splits sum.splits)
  then obtain r s' where run: "processOptimizedBatch e u p f m opts s = closing e b r s'"
    by blast
  show "trace (snd (processOptimizedBatch e u p f m opts s)) \<noteq> []"
    unfolding run by (simp add: closing_trace)
  show "last (trace (snd (processOptimizedBatch e u p f m opts s))) = BrowserClose b"
    unfolding run by (simp add: closing_trace)
qed

text \<open>
  When \<open>initBrowser\<close> itself fails, the variable \<open>browser\<close> was never assigned: the run
  ends with an error and closes nothing, also when the failure came after the launch.
\<close>

lemma batch_initBrowser_fails:
  assumes rf: "call e (ReadFile f) (fileContents e) (s\<lparr>browser := None\<rparr>) = (Inr usersData, s1)"
    and ib: "initBrowser e (JBool (opt_headless opts \<noteq> JBool False)) (opt_proxy opts) s1
             = (Inl err, s2)"
  shows "processOptimizedBatch e u p f m opts s = (Inl err, s2) \<and>
         list_all quiet (newEvents s s2)"
proof -
  let ?body = "tryCatch
        (bindM (call e (ReadFile f) (fileContents e)) (\<lambda>usersData.
         (let users = parseUsers usersData in
          bindM (initBrowser e (JBool (opt_headless opts \<noteq> JBool False))
                   (opt_proxy opts)) (\<lambda>b.
          thenM (setBrowser (Some b))
         (thenM (loginToReddit e u p (opt_captchaApiKey opts))
         (let delay = (if truthy (opt_delay opts) then opt_delay opts
                       else JNum 30000) in
          bindM (batchLoop e users m delay 0 \<lparr>success = [], failed = []\<rparr>)
            (\<lambda>res.
          bindM (saveResults e (BatchResults res) (js ''batch'')) (\<lambda>resultsFile.
          returnM res))))))))
        (\<lambda>err. throwM err)"
  have run: "processOptimizedBatch e u p f m opts s =
             tryFinally ?body (closeBrowser e) (s\<lparr>browser := None\<rparr>)"
    by (simp add: processOptimizedBatch_def thenM_def bindM_def setBrowser_def)
  have "emits quiet (call e (ReadFile f) (fileContents e))"
    by (intro emits_intros) simp
  from emitsD[OF this rf] obtain evs1 where
    1: "s1 = s\<lparr>browser := None, trace := trace s @ evs1\<rparr>" "list_all quiet evs1" by auto
  from emitsD[OF emits_initBrowser ib] obtain evs2 where
    2: "s2 = s1\<lparr>trace := trace s1 @ evs2\<rparr>" "list_all quiet evs2" by blast
  have none: "browser s2 = None" using 1 2 by simp
  have "?body (s\<lparr>browser := None\<rparr>) = (Inl err, s2)"
    using rf ib by (simp add: tryCatch_def bindM_def Let_def throwM_def)
  from finally_none[of ?body "s\<lparr>browser := None\<rparr>", OF this none] run
  have "processOptimizedBatch e u p f m opts s = (Inl err, s2)" by simp
  moreover have "list_all quiet (newEvents s s2)"
    using 1 2 by (simp add: newEvents_def)
  ultimately show ?thesis by blast
qed

lemma messenger_initBrowser_fails:
  assumes ib: "initBrowser e (o_headless (mergeConfig DEFAULT_CONFIG cfg))
                 (o_proxy (mergeConfig DEFAULT_CONFIG cfg)) (s\<lparr>browser := None\<rparr>) = (Inl err, s1)"
  shows "(\<exists>err'. fst (redditMessenger e u p t m cfg s) = Inl err') \<and>
         list_all quiet (newEvents s (snd (redditMessenger e u p t m cfg s)))"
proof -
  let ?o = "mergeConfig DEFAULT_CONFIG cfg"
  let ?rest = "thenM (loginToReddit e u p (o_captchaApiKey ?o))
         (thenM (sendMessageToUser e t m)
         (bindM (now e) (\<lambda>iso.
          thenM (saveResults e
                   (SingleResult [t] m iso (o_headless ?o)
                      (truthy (o_proxy ?o)))
                   (js ''single-message''))
         (returnM True))))"
  let ?handler = "\<lambda>err.
          bindM (now e) (\<lambda>iso.
          thenM (saveResults e
                   (SingleFailure
                      [\<lparr>user = t, error = message err, timestamp = iso\<rparr>]
                      (o_headless ?o) (truthy (o_proxy ?o)))
                   (js ''failed-message''))
         (throwM err))"
  let ?body = "tryCatch
         (bindM (initBrowser e (o_headless ?o) (o_proxy ?o)) (\<lambda>b.
          thenM (setBrowser (Some b)) ?rest))
         ?handler"
  let ?failure = "SingleFailure
                      [\<lparr>user = t, error = message err, timestamp = clock e (trace s1)\<rparr>]
                      (o_headless ?o) (truthy (o_proxy ?o))"
  have run: "redditMessenger e u p t m cfg s = tryFinally ?body (closeBrowser e) (s\<lparr>browser := None\<rparr>)"
    by (simp add: redditMessenger_def Let_def thenM_def bindM_def setBrowser_def)
  obtain r3 s3 where sv: "saveResults e ?failure (js ''failed-message'') s1 = (r3, s3)"
    by (cases "saveResults e ?failure (js ''failed-message'') s1")
  from emitsD[OF emits_initBrowser ib] obtain evs1 where
    1: "s1 = s\<lparr>browser := None, trace := trace s @ evs1\<rparr>" "list_all quiet evs1" by auto
  from emitsD[OF emits_saveResults sv] obtain evs3 where
    3: "s3 = s1\<lparr>trace := trace s1 @ evs3\<rparr>" "list_all quiet evs3" by blast
  have none: "browser s3 = None" using 1 3 by simp
  have "\<exists>err'. ?body (s\<lparr>browser := None\<rparr>) = (Inl err', s3)"
    using ib sv
    by (cases r3) (simp_all add: tryCatch_def bindM_def thenM_def now_def throwM_def)
  then obtain err' where "?body (s\<lparr>browser := None\<rparr>) = (Inl err', s3)" by blast
  from finally_none[of ?body "s\<lparr>browser := None\<rparr>", OF this none] run
  have fin: "redditMessenger e u p t m cfg s = (Inl err', s3)" by simp
  have "list_all quiet (newEvents s s3)"
    using 1 3 by (simp add: newEvents_def)
  then show ?thesis unfolding fin by simp
qed

lemma broken_fields [simp]:
  "rejects brokenPageEnv tr ev = (case ev of NewPage \<Rightarrow> Some (js ''Target closed'') | _ \<Rightarrow> None)"
  "browserHandle brokenPageEnv tr = 7"
  "fileContents brokenPageEnv tr = fixtureFile"
  "clock brokenPageEnv tr = js ''T''"
  by (simp_all add: brokenPageEnv_def fixtureEnv_def)

lemma broken_initBrowser:
  "initBrowser brokenPageEnv h p s =
     (Inl (External (js ''Target closed'')),
      s\<lparr>trace := trace s @
         [Invoke InitBrowser, Launch h (if truthy p then Some p else None), NewPage]\<rparr>)"
  by (simp add: initBrowser_def io_defs)

text \<open>
  C2. The claim fails on the code. When \<open>puppeteer.launch\<close> has started a browser and
  \<open>browser.newPage\<close> then rejects, \<open>initBrowser\<close> throws before the entry function has
  assigned its variable \<open>browser\<close>, so the \<open>finally\<close> block closes nothing: both entry
  functions end with the error, the launch is in the trace and the closing of the
  browser is not.
\<close>

theorem launched_browser_left_open:
  "processOptimizedBatch brokenPageEnv (js ''u'') (js ''p'') (js ''f'') (js ''hello'')
     fixtureOptions emptyState =
     (Inl (External (js ''Target closed'')),
      \<lparr>trace = [ReadFile (js ''f''), Invoke InitBrowser, Launch (JBool False) None, NewPage],
       browser = None\<rparr>) \<and>
   fst (redditMessenger brokenPageEnv (js ''u'') (js ''p'') (js ''A'') (js ''hello'') noConfig
          emptyState) = Inl (External (js ''Target closed'')) \<and>
   take 3 (trace (snd (redditMessenger brokenPageEnv (js ''u'') (js ''p'') (js ''A'')
                         (js ''hello'') noConfig emptyState))) =
     [Invoke InitBrowser, Launch (JBool False) None, NewPage] \<and>
   BrowserClose 7 \<notin> set (trace (snd (redditMessenger brokenPageEnv (js ''u'') (js ''p'')
                                      (js ''A'') (js ''hello'') noConfig emptyState)))"
proof -
  have rf: "call brokenPageEnv (ReadFile (js ''f'')) (fileContents brokenPageEnv)
              (emptyState\<lparr>browser := None\<rparr>) =
            (Inr fixtureFile, emptyState\<lparr>browser := None, trace := [ReadFile (js ''f'')]\<rparr>)"
    by (simp add: call_def emptyState_def)
  have ib: "initBrowser brokenPageEnv (JBool (opt_headless fixtureOptions \<noteq> JBool False))
               (opt_proxy fixtureOptions)
               (emptyState\<lparr>browser := None, trace := [ReadFile (js ''f'')]\<rparr>) =
             (Inl (External (js ''Target closed'')),
              \<lparr>trace = [ReadFile (js ''f''), Invoke InitBrowser, Launch (JBool False) None,
                        NewPage], browser = None\<rparr>)"
    by (simp add: broken_initBrowser fixtureOptions_def emptyState_def)
  have batch: "processOptimizedBatch brokenPageEnv (js ''u'') (js ''p'') (js ''f'') (js ''hello'')
     fixtureOptions emptyState =
     (Inl (External (js ''Target closed'')),
      \<lparr>trace = [ReadFile (js ''f''), Invoke InitBrowser, Launch (JBool False) None, NewPage],
       browser = None\<rparr>)"
    using batch_initBrowser_fails[OF rf ib] by blast
  have single: "redditMessenger brokenPageEnv (js ''u'') (js ''p'') (js ''A'') (js ''hello'') noConfig
          emptyState =
     (Inl (External (js ''Target closed'')),
      \<lparr>trace = [Invoke InitBrowser, Launch (JBool False) None, NewPage,
                 Invoke (SaveResults (js ''failed-message'')), Mkdir (js ''./results''),
                 WriteFile
                   (pathJoin (js ''./results'')
                      (js ''failed-message'' @ js ''-'' @
                       map (\<lambda>c. if c = 0x3A \<or> c = 0x2E then 0x2D else c) (js ''T'') @
                       js ''.json''))
                   (SingleFailure
                      [\<lparr>user = js ''A'', error = js ''Target closed'', timestamp = js ''T''\<rparr>]
                      (JBool False) False)],
       browser = None\<rparr>)"
    by (simp add: redditMessenger_def Let_def mergeConfig_def DEFAULT_CONFIG_def noConfig_def
        broken_initBrowser saveResults_def closeBrowser_def io_defs emptyState_def)
  show ?thesis
    unfolding batch single by simp
qed

section \<open>The batch run after the login\<close>

lemma batch_markers:
  assumes rf: "call e (ReadFile f) (fileContents e) (s\<lparr>browser := None\<rparr>) = (Inr usersData, s1)"
    and ib: "initBrowser e (JBool (opt_headless opts \<noteq> JBool False)) (opt_proxy opts) s1
             = (Inr b, s2)"
    and lg: "loginToReddit e u p (opt_captchaApiKey opts) (s2\<lparr>browser := Some b\<rparr>)
             = (Inr ok, s3)"
  shows "filter isMarker (newEvents s (snd (processOptimizedBatch e u p f m opts s))) =
         expectedMarkers (if truthy (opt_delay opts) then opt_delay opts else JNum 30000)
           (parseUsers usersData)"
proof -
  let ?delay = "if truthy (opt_delay opts) then opt_delay opts else JNum 30000"
  let ?users = "parseUsers usersData"
  have "emits quiet (call e (ReadFile f) (fileContents e))"
    by (intro emits_intros) simp
  from emitsD[OF this rf] obtain evs1 where
    1: "s1 = s\<lparr>browser := None, trace := trace s @ evs1\<rparr>" "list_all quiet evs1" by auto
  from emitsD[OF emits_initBrowser ib] obtain evs2 where
    2: "s2 = s1\<lparr>trace := trace s1 @ evs2\<rparr>" "list_all quiet evs2" by blast
  from emitsD[OF emits_loginToReddit lg] obtain evs3 where
    3: "s3 = s2\<lparr>browser := Some b, trace := trace s2 @ evs3\<rparr>" "list_all quiet evs3" by auto
  from batchLoop_runs[of e ?users m ?delay 0 "\<lparr>success = [], failed = []\<rparr>" s3]
  obtain res' evs where
    4: "batchLoop e ?users m ?delay 0 \<lparr>success = [], failed = []\<rparr> s3
          = (Inr res', s3\<lparr>trace := trace s3 @ evs\<rparr>)"
       "filter isMarker evs = expectedMarkers ?delay ?users"
    by auto
  let ?s4 = "s3\<lparr>trace := trace s3 @ evs\<rparr>"
  obtain r5 s5 where sv: "saveResults e (BatchResults res') (js ''batch'') ?s4 = (r5, s5)"
    by (cases "saveResults e (BatchResults res') (js ''batch'') ?s4")
  from emitsD[OF emits_saveResults sv] obtain evs5 where
    5: "s5 = ?s4\<lparr>trace := trace ?s4 @ evs5\<rparr>" "list_all quiet evs5" by blast
  have "\<exists>r. processOptimizedBatch e u p f m opts s = closing e b r s5"
    unfolding batch_run_eq[OF rf ib] lg using 4(1) sv by (cases r5) auto
  then have "trace (snd (processOptimizedBatch e u p f m opts s)) = trace s5 @ [BrowserClose b]"
    by (auto simp add: closing_trace)
  also have "trace s5 = trace s @ evs1 @ evs2 @ evs3 @ evs @ evs5"
    using 1 2 3 5 by simp
  finally have "newEvents s (snd (processOptimizedBatch e u p f m opts s)) =
                evs1 @ evs2 @ evs3 @ evs @ evs5 @ [BrowserClose b]"
    by (simp add: newEvents_def)
  then show ?thesis
    using 1(2) 2(2) 3(2) 4(2) 5(2) by (simp add: filter_quiet)
qed

section \<open>Properties of the target list\<close>

lemma joinLines_Cons: "joinLines ((c # p) # ps) = c # joinLines (p # ps)"
  by (cases ps) simp_all

lemma split_nonempty: "split sep s \<noteq> []"
  by (induction s) (auto split: list.splits)

lemma joinLines_split: "joinLines (split newline s) = s"
proof (induction s)
  case Nil
  then show ?case by simp
next
  case (Cons c cs)
  obtain p ps where sp: "split newline cs = p # ps"
    using split_nonempty[of newline cs] by (cases "split newline cs") auto
  show ?case
    using Cons sp by (simp add: joinLines_Cons)
qed

lemma split_no_separator: "l \<in> set (split sep s) \<Longrightarrow> sep \<notin> set l"
proof (induction s arbitrary: l)
  case Nil
  then show ?case by simp
next
  case (Cons c cs)
  obtain p ps where sp: "split sep cs = p # ps"
    using split_nonempty[of sep cs] by (cases "split sep cs") auto
  show ?case
  proof (cases "c = sep")
    case True
    with Cons show ?thesis by auto
  next
    case False
    with Cons.prems sp have "l = c # p \<or> l \<in> set ps" by simp
    then show ?thesis
    proof
      assume "l = c # p"
      moreover have "sep \<notin> set p" using Cons.IH[of p] sp by simp
      ultimately show ?thesis using False by auto
    next
      assume "l \<in> set ps"
      then show ?thesis using Cons.IH[of l] sp by simp
    qed
  qed
qed

lemma list_all_takeWhile: "list_all P (takeWhile P xs)"
  by (induction xs) simp_all

lemma trim_splits:
  "\<exists>before after. l = before @ trim l @ after \<and> list_all isWhiteSpace before \<and>
      list_all isWhiteSpace after \<and>
      (trim l \<noteq> [] \<longrightarrow> \<not> isWhiteSpace (hd (trim l)) \<and> \<not> isWhiteSpace (last (trim l)))"
proof -
  let ?d = "dropWhile isWhiteSpace l"
  let ?after = "rev (takeWhile isWhiteSpace (rev ?d))"
  have d: "?d = trim l @ ?after"
    unfolding trim_def by (metis rev_append rev_rev_ident takeWhile_dropWhile_id)
  have l: "l = takeWhile isWhiteSpace l @ trim l @ ?after"
    using d takeWhile_dropWhile_id[of isWhiteSpace l] by simp
  have ends: "\<not> isWhiteSpace (hd (trim l)) \<and> \<not> isWhiteSpace (last (trim l))" if ne: "trim l \<noteq> []"
  proof -
    have "?d \<noteq> []" using d ne by (metis Nil_is_append_conv)
    then have "\<not> isWhiteSpace (hd ?d)" by (rule hd_dropWhile)
    moreover have "hd ?d = hd (trim l)" using d ne by (metis hd_append2)
    moreover have r: "dropWhile isWhiteSpace (rev ?d) \<noteq> []" using ne by (simp add: trim_def)
    then have "\<not> isWhiteSpace (hd (dropWhile isWhiteSpace (rev ?d)))" by (rule hd_dropWhile)
    moreover have "last (trim l) = hd (dropWhile isWhiteSpace (rev ?d))"
      using r by (simp add: trim_def last_rev)
    ultimately show ?thesis by simp
  qed
  have "list_all isWhiteSpace (takeWhile isWhiteSpace l)" by (rule list_all_takeWhile)
  moreover have "list_all isWhiteSpace ?after"
    using list_all_takeWhile[of isWhiteSpace "rev ?d"] by (simp add: list_all_iff)
  ultimately show ?thesis using l ends by blast
qed

lemma keepTargets_filter:
  "filter (\<lambda>line. line \<noteq> [] \<and> \<not> startsWith line [hash]) (map trim ls) = keepTargets ls"
  by (induction ls) (auto simp add: startsWith_def split: list.splits)

text \<open>
  C9. The parsed target list is what the specification describes: the lines between the
  newlines of the file (joined again by newlines they give the file back, and none
  contains a newline), each trimmed of the whitespace at its two ends, without the empty
  ones and without those that begin with \<open>#\<close>, in the order of the file. In a batch run
  whose file was read, whose browser started and whose login succeeded,
  \<open>sendMessageToUser\<close> is entered for exactly these targets, in this order.
\<close>

theorem target_list_in_file_order:
  "parseUsers usersData = keepTargets (split newline usersData) \<and>
   joinLines (split newline usersData) = usersData \<and>
   (\<forall>l \<in> set (split newline usersData). newline \<notin> set l) \<and>
   (\<forall>l. \<exists>before after. l = before @ trim l @ after \<and> list_all isWhiteSpace before \<and>
      list_all isWhiteSpace after \<and>
      (trim l \<noteq> [] \<longrightarrow> \<not> isWhiteSpace (hd (trim l)) \<and> \<not> isWhiteSpace (last (trim l)))) \<and>
   subseq (parseUsers usersData) (map trim (split newline usersData)) \<and>
   (\<forall>e f s s1 opts b s2 u p ok s3 m.
      call e (ReadFile f) (fileContents e) (s\<lparr>browser := None\<rparr>) = (Inr usersData, s1) \<and>
      initBrowser e (JBool (opt_headless opts \<noteq> JBool False)) (opt_proxy opts) s1
        = (Inr b, s2) \<and>
      loginToReddit e u p (opt_captchaApiKey opts) (s2\<lparr>browser := Some b\<rparr>) = (Inr ok, s3) \<longrightarrow>
      targetsInvoked (newEvents s (snd (processOptimizedBatch e u p f m opts s))) =
        parseUsers usersData)"
proof -
  have a: "parseUsers usersData = keepTargets (split newline usersData)"
    by (simp add: parseUsers_def keepTargets_filter)
  have b: "subseq (parseUsers usersData) (map trim (split newline usersData))"
    by (simp add: parseUsers_def)
  have c: "targetsInvoked (newEvents s (snd (processOptimizedBatch e u p f m opts s))) =
        parseUsers usersData"
    if "call e (ReadFile f) (fileContents e) (s\<lparr>browser := None\<rparr>) = (Inr usersData, s1)"
      "initBrowser e (JBool (opt_headless opts \<noteq> JBool False)) (opt_proxy opts) s1
        = (Inr b, s2)"
      "loginToReddit e u p (opt_captchaApiKey opts) (s2\<lparr>browser := Some b\<rparr>) = (Inr ok, s3)"
    for e f s s1 opts b s2 u p ok s3 m
    using targetsInvoked_filter[of "newEvents s (snd (processOptimizedBatch e u p f m opts s))"]
    unfolding batch_markers[OF that] by (simp add: targetsInvoked_expected)
  have d: "\<forall>l \<in> set (split newline usersData). newline \<notin> set l"
    using split_no_separator[of _ newline usersData] by auto
  have e: "\<forall>l. \<exists>before after. l = before @ trim l @ after \<and> list_all isWhiteSpace before \<and>
      list_all isWhiteSpace after \<and>
      (trim l \<noteq> [] \<longrightarrow> \<not> isWhiteSpace (hd (trim l)) \<and> \<not> isWhiteSpace (last (trim l)))"
    using trim_splits by blast
  show ?thesis
    using a b d e joinLines_split[of usersData]
    by (intro conjI allI impI) (use c in \<open>blast+\<close>)
qed

section \<open>The batch in the concrete environment\<close>

lemma fixture_parse: "parseUsers fixtureFile = [js ''A'', js ''B'', js ''C'']"
  by code_simp

lemma fixture_no_captcha:
  "\<not> captchaRequired \<lparr>recaptchaIframe = None, captchaContainer = None, gRecaptchaShown = False\<rparr>"
  by (simp add: captchaRequired_def)

lemma fixture_login:
  "loginToReddit fixtureEnv u p k s =
     (Inr True, s\<lparr>trace := trace s @
        [Invoke LoginToReddit, Goto (js ''https://www.reddit.com/login''),
         WaitForSelector (js ''faceplate-text-input#login-username''),
         WaitForSelector (js ''faceplate-text-input#login-password''),
         Evaluate (FillUsername u), Evaluate (FillPassword p), Evaluate ClickLoginForm,
         Sleep 5000, Invoke HandleCaptchaIfPresent, Evaluate DetectCaptcha,
         Invoke VerifyLoginSuccess, WaitForNavigation 10000, Evaluate LoginIndicators]\<rparr>)"
  by (simp add: loginToReddit_def Let_def submit_ok handleCaptchaIfPresent_def
      verifyLoginSuccess_def io_defs fixture_no_captcha urlIndicatesSuccess_def chat_url_facts)

lemma fixture_sendMessageInChatInterface:
  "sendMessageInChatInterface fixtureEnv m s =
     (Inr (), s\<lparr>trace := trace s @
        [Invoke SendMessageInChatInterface,
         WaitForSelector (js ''rs-message-composer''), Sleep 2000, Evaluate (TypeMessage m),
         Sleep 1000, Evaluate ClickSend, Sleep 2000, Evaluate ReadDelivery]\<rparr>)"
  by (simp add: sendMessageInChatInterface_def fixture_composeAndSubmit confirmDelivery_def
      io_defs deliveryStatusOf_def delivery_facts)

lemma fixture_send_ok:
  assumes "js ''https://www.reddit.com/user/'' @ u \<noteq> js ''https://www.reddit.com/user/B''"
  shows "sendMessageToUser fixtureEnv u m s =
     (Inr True, s\<lparr>trace := trace s @
        [Invoke (SendMessageToUser u),
         Goto (js ''https://www.reddit.com/user/'' @ u), Evaluate ReadUserStatus,
         Invoke ExtractChatUrl, WaitForSelector (js ''button, a''), Evaluate FindChatUrl,
         Goto (js ''https://chat.reddit.com/user/x''), Sleep 3000,
         Invoke SendMessageInChatInterface,
         WaitForSelector (js ''rs-message-composer''), Sleep 2000, Evaluate (TypeMessage m),
         Sleep 1000, Evaluate ClickSend, Sleep 2000, Evaluate ReadDelivery]\<rparr>)"
  by (simp add: sendMessageToUser_def fixture_openChat[OF assms]
      fixture_sendMessageInChatInterface io_defs)

lemma fixture_send_B:
  "sendMessageToUser fixtureEnv (js ''B'') m s =
     (Inl (UserUnavailable (js ''B'') not_found),
      s\<lparr>trace := trace s @
        [Invoke (SendMessageToUser (js ''B'')),
         Goto (js ''https://www.reddit.com/user/B''), Evaluate ReadUserStatus]\<rparr>)"
  by (simp add: sendMessageToUser_def openChat_def io_defs fixture_profile profile_facts)

lemma pathJoin_examples:
  "pathJoin (js ''./results'') (js ''batch-T.json'') = js ''results/batch-T.json''"
  "pathJoin (js ''./results'') (js ''../x-T.json'') = js ''x-T.json''"
  "pathJoin (js ''./results'') (js ''a//b/./c-T.json'') = js ''results/a/b/c-T.json''"
  by code_simp+

lemma save_ok:
  assumes "\<And>tr ev. rejects e tr ev = None"
  shows "\<exists>fname evs. saveResults e d pfx s = (Inr fname, s\<lparr>trace := trace s @ evs\<rparr>)"
  by (auto simp add: saveResults_def Let_def io_defs assms)

lemma user_B_message: "message (UserUnavailable (js ''B'') not_found) = js ''User B not found''"
  by code_simp

lemma fixture_loop:
  "fst (batchLoop fixtureEnv [js ''A'', js ''B'', js ''C''] m d 0
          \<lparr>success = [], failed = []\<rparr> s) =
   Inr \<lparr>success = [js ''A'', js ''C''],
        failed = [\<lparr>user = js ''B'', error = js ''User B not found'', timestamp = js ''T''\<rparr>]\<rparr>"
proof -
  let ?users = "[js ''A'', js ''B'', js ''C'']"
  have A: "sendMessageToUser fixtureEnv (?users ! 0) m s =
           (Inr True, snd (sendMessageToUser fixtureEnv (?users ! 0) m s))" for s
    by (simp add: fixture_send_ok profile_facts)
  have B: "sendMessageToUser fixtureEnv (?users ! (0 + 1)) m s =
           (Inl (UserUnavailable (js ''B'') not_found),
            snd (sendMessageToUser fixtureEnv (?users ! (0 + 1)) m s))" for s
    by (simp add: fixture_send_B)
  have C: "sendMessageToUser fixtureEnv (?users ! (0 + 1 + 1)) m s =
           (Inr True, snd (sendMessageToUser fixtureEnv (?users ! (0 + 1 + 1)) m s))" for s
    by (simp add: fixture_send_ok profile_facts)
  show ?thesis
    apply (subst batchLoop_success_step[OF _ A], simp)
    apply (subst batchLoop_failure_step[OF _ B], simp)
    apply (subst batchLoop_success_step[OF _ C], simp)
    apply (subst batchLoop_done, simp)
    apply (simp add: js_append[symmetric])
    done
qed

lemma fixture_batch:
  "fst (processOptimizedBatch fixtureEnv u p f m fixtureOptions emptyState) =
   Inr \<lparr>success = [js ''A'', js ''C''],
        failed = [\<lparr>user = js ''B'', error = js ''User B not found'', timestamp = js ''T''\<rparr>]\<rparr>"
proof -
  have rf: "call fixtureEnv (ReadFile f) (fileContents fixtureEnv) (emptyState\<lparr>browser := None\<rparr>) =
            (Inr fixtureFile, emptyState\<lparr>browser := None, trace := [ReadFile f]\<rparr>)"
    by (simp add: readFile_ok emptyState_def)
  obtain s2 where ib: "initBrowser fixtureEnv (JBool (opt_headless fixtureOptions \<noteq> JBool False))
               (opt_proxy fixtureOptions)
               (emptyState\<lparr>browser := None, trace := [ReadFile f]\<rparr>) = (Inr 7, s2)"
    by (simp add: init_ok)
  obtain s3 where lg: "loginToReddit fixtureEnv u p (opt_captchaApiKey fixtureOptions)
      (s2\<lparr>browser := Some 7\<rparr>) = (Inr True, s3)"
    by (simp add: fixture_login)
  let ?res = "\<lparr>success = [js ''A'', js ''C''],
        failed = [\<lparr>user = js ''B'', error = js ''User B not found'', timestamp = js ''T''\<rparr>]\<rparr>"
  obtain s4 where lp: "batchLoop fixtureEnv (parseUsers fixtureFile) m
           (if truthy (opt_delay fixtureOptions) then opt_delay fixtureOptions else JNum 30000) 0
           \<lparr>success = [], failed = []\<rparr> s3 = (Inr ?res, s4)"
    using fixture_loop[of m _ s3] unfolding fixture_parse by (metis prod.collapse)
  obtain fname s5 where sv: "saveResults fixtureEnv (BatchResults ?res) (js ''batch'') s4
      = (Inr fname, s5)"
    using save_ok[of fixtureEnv "BatchResults ?res" "js ''batch''" s4] by auto
  show ?thesis
    unfolding batch_run_eq[OF rf ib] lg prod.case sum.case lp sv
    by (simp add: closing_def)
qed

theorem target_list_in_file_order_witness:
  "parseUsers fixtureFile = [js ''A'', js ''B'', js ''C''] \<and>
   keepTargets (split newline fixtureFile) = [js ''A'', js ''B'', js ''C''] \<and>
   split newline fixtureFile = [js ''A'', js ''# note'', js '' B '', [], js ''C''] \<and>
   joinLines [js ''A'', js ''# note'', js '' B '', [], js ''C''] = fixtureFile \<and>
   fst (loginToReddit fixtureEnv (js ''u'') (js ''p'') (opt_captchaApiKey fixtureOptions)
          (snd (initBrowser fixtureEnv (JBool (opt_headless fixtureOptions \<noteq> JBool False))
                  (opt_proxy fixtureOptions)
                  (emptyState\<lparr>browser := None, trace := [ReadFile (js ''f'')]\<rparr>))
             \<lparr>browser := Some 7\<rparr>)) = Inr True \<and>
   targetsInvoked (newEvents emptyState
      (snd (processOptimizedBatch fixtureEnv (js ''u'') (js ''p'') (js ''f'') (js ''hello'')
              fixtureOptions emptyState))) = [js ''A'', js ''B'', js ''C'']"
proof -
  have rf: "call fixtureEnv (ReadFile (js ''f'')) (fileContents fixtureEnv)
              (emptyState\<lparr>browser := None\<rparr>) =
            (Inr fixtureFile, emptyState\<lparr>browser := None, trace := [ReadFile (js ''f'')]\<rparr>)"
    by (simp add: readFile_ok emptyState_def)
  let ?s2 = "snd (initBrowser fixtureEnv (JBool (opt_headless fixtureOptions \<noteq> JBool False))
                  (opt_proxy fixtureOptions)
                  (emptyState\<lparr>browser := None, trace := [ReadFile (js ''f'')]\<rparr>))"
  have ib: "initBrowser fixtureEnv (JBool (opt_headless fixtureOptions \<noteq> JBool False))
               (opt_proxy fixtureOptions)
               (emptyState\<lparr>browser := None, trace := [ReadFile (js ''f'')]\<rparr>) = (Inr 7, ?s2)"
    by (simp add: init_ok)
  let ?s3 = "snd (loginToReddit fixtureEnv (js ''u'') (js ''p'') (opt_captchaApiKey fixtureOptions)
      (?s2\<lparr>browser := Some 7\<rparr>))"
  have lg: "loginToReddit fixtureEnv (js ''u'') (js ''p'') (opt_captchaApiKey fixtureOptions)
      (?s2\<lparr>browser := Some 7\<rparr>) = (Inr True, ?s3)"
    by (simp add: fixture_login)
  note t = target_list_in_file_order[of fixtureFile]
  from t have 1: "keepTargets (split newline fixtureFile) = parseUsers fixtureFile"
    by simp
  have sp: "split newline fixtureFile = [js ''A'', js ''# note'', js '' B '', [], js ''C'']"
    by code_simp
  from t have 2: "joinLines [js ''A'', js ''# note'', js '' B '', [], js ''C''] = fixtureFile"
    unfolding sp by blast
  from t rf ib lg have 3: "targetsInvoked (newEvents emptyState
      (snd (processOptimizedBatch fixtureEnv (js ''u'') (js ''p'') (js ''f'') (js ''hello'')
              fixtureOptions emptyState))) = parseUsers fixtureFile"
    by blast
  have 4: "fst (loginToReddit fixtureEnv (js ''u'') (js ''p'') (opt_captchaApiKey fixtureOptions)
      (?s2\<lparr>browser := Some 7\<rparr>)) = Inr True"
    by (simp add: fixture_login)
  from 1 2 3 4 sp show ?thesis
    by (simp add: fixture_parse)
qed

section \<open>Failures inside the batch and pacing\<close>

lemma expectedMarkers_Nil: "expectedMarkers d users = [] \<longleftrightarrow> users = []"
  by (cases "(d, users)" rule: expectedMarkers.cases) simp_all

lemma expectedMarkers_last:
  "users \<noteq> [] \<Longrightarrow> last (expectedMarkers d users) = Invoke (SendMessageToUser (last users))"
  by (induction d users rule: expectedMarkers.induct) (simp_all add: expectedMarkers_Nil)

lemma batchLoop_markers:
  "filter isMarker (newEvents s (snd (batchLoop e users m d i res s))) =
     expectedMarkers d (drop i users)"
  using batchLoop_runs[of e users m d i res s] by auto

lemma targetsInvoked_pause:
  "targetsInvoked (if c then [PacingDelay d] else []) = []"
  by simp

lemma batchLoop_reaches:
  "j \<le> length users \<Longrightarrow>
   \<exists>res_j evs. batchLoop e users m d 0 res s =
                  batchLoop e users m d j res_j (s\<lparr>trace := trace s @ evs\<rparr>) \<and>
               targetsInvoked evs = take j users"
proof (induction j)
  case 0
  show ?case
    by (rule exI[of _ res], rule exI[of _ "[]"]) simp
next
  case (Suc j)
  then have lt: "j < length users" by simp
  from Suc.IH lt obtain res_j evs where
    1: "batchLoop e users m d 0 res s =
        batchLoop e users m d j res_j (s\<lparr>trace := trace s @ evs\<rparr>)"
       "targetsInvoked evs = take j users"
    by auto
  let ?sj = "s\<lparr>trace := trace s @ evs\<rparr>"
  let ?u = "users ! j"
  obtain r0 s1 where send: "sendMessageToUser e ?u m ?sj = (r0, s1)"
    by (cases "sendMessageToUser e ?u m ?sj")
  from sendMessageToUser_trace[OF send] obtain evs' where
    2: "s1 = ?sj\<lparr>trace := trace ?sj @ Invoke (SendMessageToUser ?u) # evs'\<rparr>"
       "list_all quiet evs'"
    by blast
  let ?pause = "if j + 1 < length users then [PacingDelay d] else []"
  let ?s2 = "if j + 1 < length users then s1\<lparr>trace := trace s1 @ [PacingDelay d]\<rparr> else s1"
  have s2: "?s2 = s\<lparr>trace := trace s @ (evs @ Invoke (SendMessageToUser ?u) # evs' @ ?pause)\<rparr>"
    using 2(1) by simp
  obtain res1 where step: "batchLoop e users m d j res_j ?sj =
                           batchLoop e users m d (j + 1) res1 ?s2"
  proof (cases r0)
    case (Inl err)
    show ?thesis
      by (rule that[OF batchLoop_failure_step[OF lt send[unfolded Inl]]])
  next
    case (Inr ok)
    show ?thesis
      by (rule that[OF batchLoop_success_step[OF lt send[unfolded Inr]]])
  qed
  have inv: "targetsInvoked (evs @ Invoke (SendMessageToUser ?u) # evs' @ ?pause) =
             take (Suc j) users"
    using 1(2) 2(2) lt
    by (simp add: targetsInvoked_append targetsInvoked_quiet take_Suc_conv_app_nth
        del: targetsInvoked.simps(1))
  have "batchLoop e users m d 0 res s =
        batchLoop e users m d (Suc j) res1
          (s\<lparr>trace := trace s @ (evs @ Invoke (SendMessageToUser ?u) # evs' @ ?pause)\<rparr>)"
    unfolding 1(1) step s2 by simp
  with inv show ?case by blast
qed

lemma batch_after_login:
  assumes rf: "call e (ReadFile f) (fileContents e) (sa\<lparr>browser := None\<rparr>) = (Inr usersData, s1)"
    and ib: "initBrowser e (JBool (opt_headless opts \<noteq> JBool False)) (opt_proxy opts) s1
             = (Inr b, s2)"
    and lg: "loginToReddit e u p (opt_captchaApiKey opts) (s2\<lparr>browser := Some b\<rparr>)
             = (Inr ok, s3)"
  shows "\<exists>res s4.
      batchLoop e (parseUsers usersData) m
        (if truthy (opt_delay opts) then opt_delay opts else JNum 30000) 0
        \<lparr>success = [], failed = []\<rparr> s3 = (Inr res, s4) \<and>
      processOptimizedBatch e u p f m opts sa =
        (case saveResults e (BatchResults res) (js ''batch'') s4 of
           (Inl err, s5) \<Rightarrow> closing e b (Inl err) s5
         | (Inr fname, s5) \<Rightarrow> closing e b (Inr res) s5) \<and>
      targetsInvoked (newEvents sa (snd (processOptimizedBatch e u p f m opts sa))) =
        parseUsers usersData \<and>
      length (success res) + length (failed res) = length (parseUsers usersData) \<and>
      (\<forall>j. j < length (parseUsers usersData) \<longrightarrow>
         (\<exists>res_j s_j.
            batchLoop e (parseUsers usersData) m
              (if truthy (opt_delay opts) then opt_delay opts else JNum 30000) 0
              \<lparr>success = [], failed = []\<rparr> s3 =
            batchLoop e (parseUsers usersData) m
              (if truthy (opt_delay opts) then opt_delay opts else JNum 30000) j res_j s_j \<and>
            targetsInvoked (newEvents s3 s_j) = take j (parseUsers usersData) \<and>
            (\<forall>err s'.
               sendMessageToUser e (parseUsers usersData ! j) m s_j = (Inl err, s') \<longrightarrow>
               \<lparr>user = parseUsers usersData ! j, error = message err,
                timestamp = clock e (trace s')\<rparr> \<in> set (failed res)) \<and>
            (\<forall>sent s'.
               sendMessageToUser e (parseUsers usersData ! j) m s_j = (Inr sent, s') \<longrightarrow>
               parseUsers usersData ! j \<in> set (success res))))"
proof -
  let ?users = "parseUsers usersData"
  let ?delay = "if truthy (opt_delay opts) then opt_delay opts else JNum 30000"
  let ?empty = "\<lparr>success = [], failed = []\<rparr>"
  from batchLoop_runs[of e ?users m ?delay 0 ?empty s3] obtain res evs where
    lp: "batchLoop e ?users m ?delay 0 ?empty s3 = (Inr res, s3\<lparr>trace := trace s3 @ evs\<rparr>)"
    and len: "length (success res) + length (failed res) = length ?users"
    by auto
  let ?s4 = "s3\<lparr>trace := trace s3 @ evs\<rparr>"
  have run: "processOptimizedBatch e u p f m opts sa =
        (case saveResults e (BatchResults res) (js ''batch'') ?s4 of
           (Inl err, s5) \<Rightarrow> closing e b (Inl err) s5
         | (Inr fname, s5) \<Rightarrow> closing e b (Inr res) s5)"
    unfolding batch_run_eq[OF rf ib] lg prod.case sum.case lp by simp
  have inv: "targetsInvoked (newEvents sa (snd (processOptimizedBatch e u p f m opts sa))) = ?users"
    using targetsInvoked_filter[of "newEvents sa (snd (processOptimizedBatch e u p f m opts sa))"]
    unfolding batch_markers[OF rf ib lg] by (simp add: targetsInvoked_expected)
  have each: "\<exists>res_j s_j.
            batchLoop e ?users m ?delay 0 ?empty s3 = batchLoop e ?users m ?delay j res_j s_j \<and>
            targetsInvoked (newEvents s3 s_j) = take j ?users \<and>
            (\<forall>err s'.
               sendMessageToUser e (?users ! j) m s_j = (Inl err, s') \<longrightarrow>
               \<lparr>user = ?users ! j, error = message err,
                timestamp = clock e (trace s')\<rparr> \<in> set (failed res)) \<and>
            (\<forall>sent s'.
               sendMessageToUser e (?users ! j) m s_j = (Inr sent, s') \<longrightarrow>
               ?users ! j \<in> set (success res))"
    if lt: "j < length ?users" for j
  proof -
    from batchLoop_reaches[of j ?users e m ?delay ?empty s3] lt obtain res_j evs_j where
      r: "batchLoop e ?users m ?delay 0 ?empty s3 =
          batchLoop e ?users m ?delay j res_j (s3\<lparr>trace := trace s3 @ evs_j\<rparr>)"
         "targetsInvoked evs_j = take j ?users"
      by auto
    let ?sj = "s3\<lparr>trace := trace s3 @ evs_j\<rparr>"
    have fin: "batchLoop e ?users m ?delay j res_j ?sj = (Inr res, ?s4)"
      using r(1) lp by simp
    have bad: "\<lparr>user = ?users ! j, error = message err, timestamp = clock e (trace s')\<rparr>
                 \<in> set (failed res)"
      if "sendMessageToUser e (?users ! j) m ?sj = (Inl err, s')" for err s'
    proof -
      from batchLoop_records_failure[OF lt that, of ?delay res_j] fin
      have "prefix (failed res_j @
              [\<lparr>user = ?users ! j, error = message err, timestamp = clock e (trace s')\<rparr>])
              (failed res)"
        by simp
      then show ?thesis by (auto dest: set_mono_prefix)
    qed
    have good: "?users ! j \<in> set (success res)"
      if "sendMessageToUser e (?users ! j) m ?sj = (Inr sent, s')" for sent s'
    proof -
      from batchLoop_records_success[OF lt that, of ?delay res_j] fin
      have "prefix (success res_j @ [?users ! j]) (success res)"
        by simp
      then show ?thesis by (auto dest: set_mono_prefix)
    qed
    have "targetsInvoked (newEvents s3 ?sj) = take j ?users"
      using r(2) by simp
    with r(1) bad good show ?thesis by blast
  qed
  show ?thesis
    apply (rule exI[of _ res], rule exI[of _ ?s4])
    apply (intro conjI allI impI)
        apply (rule lp)
       apply (rule run)
      apply (rule inv)
     apply (rule len)
    apply (erule each)
    done
qed

text \<open>
  C1. The batch loop, from any target on and whatever the environment does, ends
  normally and enters \<open>sendMessageToUser\<close> for every remaining target in order. When the
  delivery to a target throws, the loop goes on with the next target, after adding to
  the failures the entry made of the target, the message of the error and the time, and
  this entry is among the failures the loop returns. A batch run whose file was read,
  whose browser started and whose login succeeded runs this loop over the parsed targets
  from the first one with empty results: it enters \<open>sendMessageToUser\<close> for every
  target, each target ends on the success list or, with the entry of its error, on the
  failure list of the results, and these results are what the run saves and, unless the
  saving or the closing of the browser fails, returns. When the login of a batch run
  throws, the run fails and \<open>sendMessageToUser\<close> is entered for no target.
\<close>

theorem failures_do_not_abort_the_batch:
  "(\<exists>res'. fst (batchLoop e users m d i res s) = Inr res') \<and>
   targetsInvoked (newEvents s (snd (batchLoop e users m d i res s))) = drop i users \<and>
   (\<forall>err s1.
      i < length users \<and> sendMessageToUser e (users ! i) m s = (Inl err, s1) \<longrightarrow>
      batchLoop e users m d i res s =
        batchLoop e users m d (i + 1)
          (res\<lparr>failed := failed res @
             [\<lparr>user = users ! i, error = message err, timestamp = clock e (trace s1)\<rparr>]\<rparr>)
          (if i + 1 < length users then s1\<lparr>trace := trace s1 @ [PacingDelay d]\<rparr> else s1) \<and>
      (\<exists>res'. fst (batchLoop e users m d i res s) = Inr res' \<and>
         prefix (failed res @
            [\<lparr>user = users ! i, error = message err, timestamp = clock e (trace s1)\<rparr>])
           (failed res'))) \<and>
   (\<forall>f sa usersData s1 opts b s2 u p err s3.
      call e (ReadFile f) (fileContents e) (sa\<lparr>browser := None\<rparr>) = (Inr usersData, s1) \<and>
      initBrowser e (JBool (opt_headless opts \<noteq> JBool False)) (opt_proxy opts) s1
        = (Inr b, s2) \<and>
      loginToReddit e u p (opt_captchaApiKey opts) (s2\<lparr>browser := Some b\<rparr>) = (Inl err, s3) \<longrightarrow>
      (\<exists>err'. fst (processOptimizedBatch e u p f m opts sa) = Inl err') \<and>
      targetsInvoked (newEvents sa (snd (processOptimizedBatch e u p f m opts sa))) = []) \<and>
   (\<forall>f sa usersData s1 opts b s2 u p ok s3.
      call e (ReadFile f) (fileContents e) (sa\<lparr>browser := None\<rparr>) = (Inr usersData, s1) \<and>
      initBrowser e (JBool (opt_headless opts \<noteq> JBool False)) (opt_proxy opts) s1
        = (Inr b, s2) \<and>
      loginToReddit e u p (opt_captchaApiKey opts) (s2\<lparr>browser := Some b\<rparr>) = (Inr ok, s3) \<longrightarrow>
      (\<exists>res s4.
         batchLoop e (parseUsers usersData) m
           (if truthy (opt_delay opts) then opt_delay opts else JNum 30000) 0
           \<lparr>success = [], failed = []\<rparr> s3 = (Inr res, s4) \<and>
         processOptimizedBatch e u p f m opts sa =
           (case saveResults e (BatchResults res) (js ''batch'') s4 of
              (Inl err, s5) \<Rightarrow> closing e b (Inl err) s5
            | (Inr fname, s5) \<Rightarrow> closing e b (Inr res) s5) \<and>
         targetsInvoked (newEvents sa (snd (processOptimizedBatch e u p f m opts sa))) =
           parseUsers usersData \<and>
         length (success res) + length (failed res) = length (parseUsers usersData) \<and>
         (\<forall>j. j < length (parseUsers usersData) \<longrightarrow>
            (\<exists>res_j s_j.
               batchLoop e (parseUsers usersData) m
                 (if truthy (opt_delay opts) then opt_delay opts else JNum 30000) 0
                 \<lparr>success = [], failed = []\<rparr> s3 =
               batchLoop e (parseUsers usersData) m
                 (if truthy (opt_delay opts) then opt_delay opts else JNum 30000) j res_j s_j \<and>
               targetsInvoked (newEvents s3 s_j) = take j (parseUsers usersData) \<and>
               (\<forall>err s'.
                  sendMessageToUser e (parseUsers usersData ! j) m s_j = (Inl err, s') \<longrightarrow>
                  \<lparr>user = parseUsers usersData ! j, error = message err,
                   timestamp = clock e (trace s')\<rparr> \<in> set (failed res)) \<and>
               (\<forall>sent s'.
                  sendMessageToUser e (parseUsers usersData ! j) m s_j = (Inr sent, s') \<longrightarrow>
                  parseUsers usersData ! j \<in> set (success res))))))"
proof -
  have a: "\<exists>res'. fst (batchLoop e users m d i res s) = Inr res'"
    using batchLoop_runs[of e users m d i res s] by auto
  have b: "targetsInvoked (newEvents s (snd (batchLoop e users m d i res s))) = drop i users"
    using targetsInvoked_filter[of "newEvents s (snd (batchLoop e users m d i res s))"]
    unfolding batchLoop_markers by (simp add: targetsInvoked_expected)
  have c: "batchLoop e users m d i res s =
        batchLoop e users m d (i + 1)
          (res\<lparr>failed := failed res @
             [\<lparr>user = users ! i, error = message err, timestamp = clock e (trace s1)\<rparr>]\<rparr>)
          (if i + 1 < length users then s1\<lparr>trace := trace s1 @ [PacingDelay d]\<rparr> else s1) \<and>
      (\<exists>res'. fst (batchLoop e users m d i res s) = Inr res' \<and>
         prefix (failed res @
            [\<lparr>user = users ! i, error = message err, timestamp = clock e (trace s1)\<rparr>])
           (failed res'))"
    if "i < length users" "sendMessageToUser e (users ! i) m s = (Inl err, s1)" for err s1
    using batchLoop_failure_step[OF that] batchLoop_records_failure[OF that] by blast
  have d: "(\<exists>err'. fst (processOptimizedBatch e u p f m opts sa) = Inl err') \<and>
      targetsInvoked (newEvents sa (snd (processOptimizedBatch e u p f m opts sa))) = []"
    if "call e (ReadFile f) (fileContents e) (sa\<lparr>browser := None\<rparr>) = (Inr usersData, s1)"
      "initBrowser e (JBool (opt_headless opts \<noteq> JBool False)) (opt_proxy opts) s1
        = (Inr b, s2)"
      "loginToReddit e u p (opt_captchaApiKey opts) (s2\<lparr>browser := Some b\<rparr>) = (Inl err, s3)"
    for f sa usersData s1 opts b s2 u p err s3
    using batch_login_fails[OF that, of m] by blast
  have c_all: "\<forall>err s1.
      i < length users \<and> sendMessageToUser e (users ! i) m s = (Inl err, s1) \<longrightarrow>
      batchLoop e users m d i res s =
        batchLoop e users m d (i + 1)
          (res\<lparr>failed := failed res @
             [\<lparr>user = users ! i, error = message err, timestamp = clock e (trace s1)\<rparr>]\<rparr>)
          (if i + 1 < length users then s1\<lparr>trace := trace s1 @ [PacingDelay d]\<rparr> else s1) \<and>
      (\<exists>res'. fst (batchLoop e users m d i res s) = Inr res' \<and>
         prefix (failed res @
            [\<lparr>user = users ! i, error = message err, timestamp = clock e (trace s1)\<rparr>])
           (failed res'))"
    using c by blast
  have d_all: "\<forall>f sa usersData s1 opts b s2 u p err s3.
      call e (ReadFile f) (fileContents e) (sa\<lparr>browser := None\<rparr>) = (Inr usersData, s1) \<and>
      initBrowser e (JBool (opt_headless opts \<noteq> JBool False)) (opt_proxy opts) s1
        = (Inr b, s2) \<and>
      loginToReddit e u p (opt_captchaApiKey opts) (s2\<lparr>browser := Some b\<rparr>) = (Inl err, s3) \<longrightarrow>
      (\<exists>err'. fst (processOptimizedBatch e u p f m opts sa) = Inl err') \<and>
      targetsInvoked (newEvents sa (snd (processOptimizedBatch e u p f m opts sa))) = []"
    using d by blast
  show ?thesis
    apply (intro conjI)
        apply (rule a)
       apply (rule b)
      apply (rule c_all)
     apply (rule d_all)
    apply (intro allI impI)
    apply (elim conjE)
    apply (erule (2) batch_after_login)
    done
qed

theorem failures_do_not_abort_the_batch_witness:
  "1 < length [js ''A'', js ''B'', js ''C''] \<and>
   fst (sendMessageToUser fixtureEnv ([js ''A'', js ''B'', js ''C''] ! 1) (js ''hello'') emptyState)
     = Inl (UserUnavailable (js ''B'') not_found) \<and>
   targetsInvoked (newEvents emptyState
     (snd (batchLoop fixtureEnv [js ''A'', js ''B'', js ''C''] (js ''hello'') (JNum 60000) 1
             \<lparr>success = [], failed = []\<rparr> emptyState))) = [js ''B'', js ''C''] \<and>
   (\<exists>res'. fst (batchLoop fixtureEnv [js ''A'', js ''B'', js ''C''] (js ''hello'') (JNum 60000) 1
                  \<lparr>success = [], failed = []\<rparr> emptyState) = Inr res' \<and>
           prefix [\<lparr>user = js ''B'', error = js ''User B not found'', timestamp = js ''T''\<rparr>]
             (failed res')) \<and>
   targetsInvoked (newEvents emptyState
      (snd (processOptimizedBatch fixtureEnv (js ''u'') (js ''p'') (js ''f'') (js ''hello'')
              fixtureOptions emptyState))) = [js ''A'', js ''B'', js ''C''] \<and>
   fst (processOptimizedBatch fixtureEnv (js ''u'') (js ''p'') (js ''f'') (js ''hello'')
          fixtureOptions emptyState) =
     Inr \<lparr>success = [js ''A'', js ''C''],
          failed = [\<lparr>user = js ''B'', error = js ''User B not found'', timestamp = js ''T''\<rparr>]\<rparr>"
proof -
  let ?users = "[js ''A'', js ''B'', js ''C'']"
  let ?s1 = "snd (sendMessageToUser fixtureEnv (?users ! 1) (js ''hello'') emptyState)"
  have send: "sendMessageToUser fixtureEnv (?users ! 1) (js ''hello'') emptyState =
              (Inl (UserUnavailable (js ''B'') not_found), ?s1)"
    by (simp add: fixture_send_B)
  note t = failures_do_not_abort_the_batch[of fixtureEnv ?users "js ''hello''" "JNum 60000" 1
      "\<lparr>success = [], failed = []\<rparr>" emptyState]
  note t_order = t[THEN conjunct2, THEN conjunct1]
  note t_fail = t[THEN conjunct2, THEN conjunct2, THEN conjunct1, rule_format]
  note t_run = t[THEN conjunct2, THEN conjunct2, THEN conjunct2, THEN conjunct2, rule_format]
  from t_order have 1: "targetsInvoked (newEvents emptyState
     (snd (batchLoop fixtureEnv ?users (js ''hello'') (JNum 60000) 1
             \<lparr>success = [], failed = []\<rparr> emptyState))) = drop 1 ?users" .
  have lt: "1 < length ?users" by simp
  from t_fail[OF conjI[OF lt send]]
  have 2: "\<exists>res'. fst (batchLoop fixtureEnv ?users (js ''hello'') (JNum 60000) 1
                  \<lparr>success = [], failed = []\<rparr> emptyState) = Inr res' \<and>
         prefix (failed \<lparr>success = [], failed = []\<rparr> @
            [\<lparr>user = ?users ! 1, error = message (UserUnavailable (js ''B'') not_found),
               timestamp = clock fixtureEnv (trace ?s1)\<rparr>])
           (failed res')"
    by blast
  have 3: "fst (sendMessageToUser fixtureEnv (?users ! 1) (js ''hello'') emptyState)
     = Inl (UserUnavailable (js ''B'') not_found)"
    by (simp add: fixture_send_B)
  have rf: "call fixtureEnv (ReadFile (js ''f'')) (fileContents fixtureEnv)
              (emptyState\<lparr>browser := None\<rparr>) =
            (Inr fixtureFile, emptyState\<lparr>browser := None, trace := [ReadFile (js ''f'')]\<rparr>)"
    by (simp add: readFile_ok emptyState_def)
  let ?s2 = "snd (initBrowser fixtureEnv (JBool (opt_headless fixtureOptions \<noteq> JBool False))
                  (opt_proxy fixtureOptions)
                  (emptyState\<lparr>browser := None, trace := [ReadFile (js ''f'')]\<rparr>))"
  have ib: "initBrowser fixtureEnv (JBool (opt_headless fixtureOptions \<noteq> JBool False))
               (opt_proxy fixtureOptions)
               (emptyState\<lparr>browser := None, trace := [ReadFile (js ''f'')]\<rparr>) = (Inr 7, ?s2)"
    by (simp add: init_ok)
  let ?s3 = "snd (loginToReddit fixtureEnv (js ''u'') (js ''p'') (opt_captchaApiKey fixtureOptions)
      (?s2\<lparr>browser := Some 7\<rparr>))"
  have lg: "loginToReddit fixtureEnv (js ''u'') (js ''p'') (opt_captchaApiKey fixtureOptions)
      (?s2\<lparr>browser := Some 7\<rparr>) = (Inr True, ?s3)"
    by (simp add: fixture_login)
  from t_run[OF conjI[OF rf conjI[OF ib lg]]]
  have 4: "targetsInvoked (newEvents emptyState
      (snd (processOptimizedBatch fixtureEnv (js ''u'') (js ''p'') (js ''f'') (js ''hello'')
              fixtureOptions emptyState))) = parseUsers fixtureFile"
    by blast
  from 1 2 3 4 fixture_batch[of "js ''u''" "js ''p''" "js ''f''" "js ''hello''"] show ?thesis
    by (simp add: js_append[symmetric] fixture_parse)
qed

text \<open>
  C6. In the trace of the batch loop over \<open>K\<close> targets, the entries of
  \<open>sendMessageToUser\<close> and the pacing delays alternate: every target in order, a delay
  after each target but the last, whether the delivery succeeded or failed, so \<open>K - 1\<close>
  delays (none for an empty list), and the last of these events is the entry for the
  last target. The same holds for the whole batch run once the file was read, the browser
  started and the login succeeded, with the parsed targets and the configured delay, or
  30000 when the configured delay is falsy.
\<close>

theorem pacing_between_targets:
  "filter isMarker (newEvents s (snd (batchLoop e users m d 0 res s))) = expectedMarkers d users \<and>
   length (filter isPacing (newEvents s (snd (batchLoop e users m d 0 res s)))) = length users - 1 \<and>
   (users \<noteq> [] \<longrightarrow>
      last (filter isMarker (newEvents s (snd (batchLoop e users m d 0 res s)))) =
        Invoke (SendMessageToUser (last users))) \<and>
   (\<forall>f sa usersData s1 opts b s2 u p ok s3.
      call e (ReadFile f) (fileContents e) (sa\<lparr>browser := None\<rparr>) = (Inr usersData, s1) \<and>
      initBrowser e (JBool (opt_headless opts \<noteq> JBool False)) (opt_proxy opts) s1
        = (Inr b, s2) \<and>
      loginToReddit e u p (opt_captchaApiKey opts) (s2\<lparr>browser := Some b\<rparr>) = (Inr ok, s3) \<longrightarrow>
      filter isMarker (newEvents sa (snd (processOptimizedBatch e u p f m opts sa))) =
        expectedMarkers (if truthy (opt_delay opts) then opt_delay opts else JNum 30000)
          (parseUsers usersData) \<and>
      length (filter isPacing (newEvents sa (snd (processOptimizedBatch e u p f m opts sa)))) =
        length (parseUsers usersData) - 1)"
proof -
  have a: "filter isMarker (newEvents s (snd (batchLoop e users m d 0 res s))) =
           expectedMarkers d users"
    using batchLoop_markers[of s e users m d 0 res] by simp
  have b: "length (filter isPacing (newEvents s (snd (batchLoop e users m d 0 res s)))) =
           length users - 1"
    using isPacing_filter[of "newEvents s (snd (batchLoop e users m d 0 res s))", symmetric]
    unfolding a by (simp add: pacing_expected)
  have c: "last (filter isMarker (newEvents s (snd (batchLoop e users m d 0 res s)))) =
        Invoke (SendMessageToUser (last users))" if "users \<noteq> []"
    unfolding a using that by (rule expectedMarkers_last)
  have d: "filter isMarker (newEvents sa (snd (processOptimizedBatch e u p f m opts sa))) =
        expectedMarkers (if truthy (opt_delay opts) then opt_delay opts else JNum 30000)
          (parseUsers usersData) \<and>
      length (filter isPacing (newEvents sa (snd (processOptimizedBatch e u p f m opts sa)))) =
        length (parseUsers usersData) - 1"
    if "call e (ReadFile f) (fileContents e) (sa\<lparr>browser := None\<rparr>) = (Inr usersData, s1)"
      "initBrowser e (JBool (opt_headless opts \<noteq> JBool False)) (opt_proxy opts) s1
        = (Inr b, s2)"
      "loginToReddit e u p (opt_captchaApiKey opts) (s2\<lparr>browser := Some b\<rparr>) = (Inr ok, s3)"
    for f sa usersData s1 opts b s2 u p ok s3
    using isPacing_filter[of "newEvents sa (snd (processOptimizedBatch e u p f m opts sa))",
        symmetric]
    unfolding batch_markers[OF that] by (simp add: pacing_expected)
  show ?thesis
    using a b by (intro conjI allI impI) (use c d in \<open>blast+\<close>)
qed

theorem pacing_between_targets_witness:
  "fst (processOptimizedBatch fixtureEnv (js ''u'') (js ''p'') (js ''f'') (js ''hello'')
          fixtureOptions emptyState) =
     Inr \<lparr>success = [js ''A'', js ''C''],
          failed = [\<lparr>user = js ''B'', error = js ''User B not found'', timestamp = js ''T''\<rparr>]\<rparr> \<and>
   filter isMarker (newEvents emptyState
      (snd (processOptimizedBatch fixtureEnv (js ''u'') (js ''p'') (js ''f'') (js ''hello'')
              fixtureOptions emptyState))) =
     [Invoke (SendMessageToUser (js ''A'')), PacingDelay (JNum 60000),
      Invoke (SendMessageToUser (js ''B'')), PacingDelay (JNum 60000),
      Invoke (SendMessageToUser (js ''C''))] \<and>
   length (filter isPacing (newEvents emptyState
      (snd (processOptimizedBatch fixtureEnv (js ''u'') (js ''p'') (js ''f'') (js ''hello'')
              fixtureOptions emptyState)))) = 2"
proof -
  have rf: "call fixtureEnv (ReadFile (js ''f'')) (fileContents fixtureEnv)
              (emptyState\<lparr>browser := None\<rparr>) =
            (Inr fixtureFile, emptyState\<lparr>browser := None, trace := [ReadFile (js ''f'')]\<rparr>)"
    by (simp add: readFile_ok emptyState_def)
  let ?s2 = "snd (initBrowser fixtureEnv (JBool (opt_headless fixtureOptions \<noteq> JBool False))
                  (opt_proxy fixtureOptions)
                  (emptyState\<lparr>browser := None, trace := [ReadFile (js ''f'')]\<rparr>))"
  have ib: "initBrowser fixtureEnv (JBool (opt_headless fixtureOptions \<noteq> JBool False))
               (opt_proxy fixtureOptions)
               (emptyState\<lparr>browser := None, trace := [ReadFile (js ''f'')]\<rparr>) = (Inr 7, ?s2)"
    by (simp add: init_ok)
  let ?s3 = "snd (loginToReddit fixtureEnv (js ''u'') (js ''p'') (opt_captchaApiKey fixtureOptions)
      (?s2\<lparr>browser := Some 7\<rparr>))"
  have lg: "loginToReddit fixtureEnv (js ''u'') (js ''p'') (opt_captchaApiKey fixtureOptions)
      (?s2\<lparr>browser := Some 7\<rparr>) = (Inr True, ?s3)"
    by (simp add: fixture_login)
  from pacing_between_targets[of emptyState fixtureEnv "[]" "js ''hello''" JNull
      "\<lparr>success = [], failed = []\<rparr>"] rf ib lg
  have "filter isMarker (newEvents emptyState
      (snd (processOptimizedBatch fixtureEnv (js ''u'') (js ''p'') (js ''f'') (js ''hello'')
              fixtureOptions emptyState))) =
        expectedMarkers (if truthy (opt_delay fixtureOptions) then opt_delay fixtureOptions
                         else JNum 30000) (parseUsers fixtureFile) \<and>
      length (filter isPacing (newEvents emptyState
      (snd (processOptimizedBatch fixtureEnv (js ''u'') (js ''p'') (js ''f'') (js ''hello'')
              fixtureOptions emptyState)))) = length (parseUsers fixtureFile) - 1"
    by blast
  then show ?thesis
    by (simp add: fixture_parse fixtureOptions_def fixture_batch[unfolded fixtureOptions_def])
qed

end
